theory Spec2Isabelle
  imports Complex_Main
begin

section \<open>Line Differ (client/src/lib/diff-utils.ts)\<close>

subsection \<open>Strings, split and join\<close>

text \<open>
  A JavaScript string is modelled as a \<open>string\<close> (list of characters).  The separator of
  \<open>split('\n')\<close> and \<open>join('\n')\<close> is the line feed character.
\<close>

definition newline :: char where
  "newline = CHR 0x0A"

text \<open>
  \<open>s.split('\n')\<close>: the pieces between consecutive separators.  The result is never
  empty: the empty string splits into the single empty line.
\<close>

fun splitLines :: "string \<Rightarrow> string list" where
  "splitLines [] = [[]]"
| "splitLines (c # cs) =
     (if c = newline then [] # splitLines cs
      else (case splitLines cs of
              l # ls \<Rightarrow> (c # l) # ls
            | [] \<Rightarrow> [[c]]))"

text \<open>\<open>lines.join('\n')\<close>.\<close>

fun joinLines :: "string list \<Rightarrow> string" where
  "joinLines [] = []"
| "joinLines [l] = l"
| "joinLines (l # ls) = l @ newline # joinLines ls"

text \<open>
  An array read \<open>lines[k]\<close>: the element, or \<open>undefined\<close> (\<open>None\<close>) out of range.
\<close>

definition lineAt :: "string list \<Rightarrow> nat \<Rightarrow> string option" where
  "lineAt ls k = (if k < length ls then Some (ls ! k) else None)"

subsection \<open>Diff entries\<close>

datatype DiffType = Equal | Insert | Delete | Replace

text \<open>
  Interface \<open>DiffLine\<close>.  The optional fields are options; \<open>content\<close> is filled from an
  array read, whose value is a string or \<open>undefined\<close>, so it is an option as well.
\<close>

record DiffLine =
  dl_type :: DiffType
  originalIndex :: "nat option"
  modifiedIndex :: "nat option"
  dl_content :: "string option"
  dl_originalContent :: "string option"

definition insertEntry :: "nat \<Rightarrow> string option \<Rightarrow> DiffLine" where
  "insertEntry j modifiedLine =
     \<lparr>dl_type = Insert, originalIndex = None, modifiedIndex = Some j,
      dl_content = modifiedLine, dl_originalContent = None\<rparr>"

definition deleteEntry :: "nat \<Rightarrow> string option \<Rightarrow> DiffLine" where
  "deleteEntry i originalLine =
     \<lparr>dl_type = Delete, originalIndex = Some i, modifiedIndex = None,
      dl_content = originalLine, dl_originalContent = None\<rparr>"

definition equalEntry :: "nat \<Rightarrow> nat \<Rightarrow> string option \<Rightarrow> DiffLine" where
  "equalEntry i j originalLine =
     \<lparr>dl_type = Equal, originalIndex = Some i, modifiedIndex = Some j,
      dl_content = originalLine, dl_originalContent = None\<rparr>"

definition replaceEntry :: "nat \<Rightarrow> nat \<Rightarrow> string option \<Rightarrow> string option \<Rightarrow> DiffLine" where
  "replaceEntry i j originalLine modifiedLine =
     \<lparr>dl_type = Replace, originalIndex = Some i, modifiedIndex = Some j,
      dl_content = modifiedLine, dl_originalContent = originalLine\<rparr>"

subsection \<open>generateDiff\<close>

text \<open>
  The \<open>while\<close> loop of \<open>generateDiff\<close>, with the two cursors and the array \<open>diff\<close>
  built so far as loop state.  The branches are in the order of the source.
\<close>

function diffLoop ::
  "string list \<Rightarrow> string list \<Rightarrow> nat \<Rightarrow> nat \<Rightarrow> DiffLine list \<Rightarrow> DiffLine list" where
  "diffLoop originalLines modifiedLines i j diff =
     (if i < length originalLines \<or> j < length modifiedLines then
        (if i \<ge> length originalLines then
           diffLoop originalLines modifiedLines i (j + 1)
             (diff @ [insertEntry j (lineAt modifiedLines j)])
         else if j \<ge> length modifiedLines then
           diffLoop originalLines modifiedLines (i + 1) j
             (diff @ [deleteEntry i (lineAt originalLines i)])
         else if lineAt originalLines i = lineAt modifiedLines j then
           diffLoop originalLines modifiedLines (i + 1) (j + 1)
             (diff @ [equalEntry i j (lineAt originalLines i)])
         else if lineAt originalLines (i + 1) = lineAt modifiedLines j then
           diffLoop originalLines modifiedLines (i + 1) j
             (diff @ [deleteEntry i (lineAt originalLines i)])
         else if lineAt modifiedLines (j + 1) = lineAt originalLines i then
           diffLoop originalLines modifiedLines i (j + 1)
             (diff @ [insertEntry j (lineAt modifiedLines j)])
         else
           diffLoop originalLines modifiedLines (i + 1) (j + 1)
             (diff @ [replaceEntry i j (lineAt originalLines i) (lineAt modifiedLines j)]))
      else diff)"
  by pat_completeness auto
termination
  by (relation "measure (\<lambda>(A, B, i, j, d). (length A - i) + (length B - j))") auto

declare diffLoop.simps [simp del]

definition generateDiff :: "string \<Rightarrow> string \<Rightarrow> DiffLine list" where
  "generateDiff original modified =
     diffLoop (splitLines original) (splitLines modified) 0 0 []"

text \<open>
  The walk as the specification words it, on the lines that remain on either side:
  the two cursors \<open>i\<close> and \<open>j\<close> count the lines already consumed, and the six cases are
  tried in the order of the specification (steps 1 to 6).  A line one ahead that does not
  exist equals nothing.
\<close>

fun diff_spec :: "nat \<Rightarrow> nat \<Rightarrow> string list \<Rightarrow> string list \<Rightarrow> DiffLine list" where
  "diff_spec i j [] [] = []"
| "diff_spec i j [] (b # bs) = insertEntry j (Some b) # diff_spec i (j + 1) [] bs"
| "diff_spec i j (a # as) [] = deleteEntry i (Some a) # diff_spec (i + 1) j as []"
| "diff_spec i j (a # as) (b # bs) =
     (if a = b then equalEntry i j (Some a) # diff_spec (i + 1) (j + 1) as bs
      else if (case as of a' # _ \<Rightarrow> a' = b | [] \<Rightarrow> False) then
        deleteEntry i (Some a) # diff_spec (i + 1) j as (b # bs)
      else if (case bs of b' # _ \<Rightarrow> b' = a | [] \<Rightarrow> False) then
        insertEntry j (Some b) # diff_spec i (j + 1) (a # as) bs
      else replaceEntry i j (Some a) (Some b) # diff_spec (i + 1) (j + 1) as bs)"

text \<open>
  \<open>oneOnly t ds\<close>: exactly one entry of \<open>ds\<close> has type \<open>t\<close> and every other entry is
  \<open>equal\<close>.
\<close>

definition oneOnly :: "DiffType \<Rightarrow> DiffLine list \<Rightarrow> bool" where
  "oneOnly t ds \<longleftrightarrow>
     length (filter (\<lambda>d. dl_type d = t) ds) = 1 \<and>
     (\<forall>d \<in> set ds. dl_type d = t \<or> dl_type d = Equal)"

text \<open>
  \<open>onePairing t ds\<close>: exactly one entry of \<open>ds\<close> pairs an original line with a modified
  line (\<open>equal\<close> or \<open>replace\<close>) and every other entry has type \<open>t\<close>.
\<close>

definition onePairing :: "DiffType \<Rightarrow> DiffLine list \<Rightarrow> bool" where
  "onePairing t ds \<longleftrightarrow>
     length (filter (\<lambda>d. dl_type d \<noteq> t) ds) = 1 \<and>
     (\<forall>d \<in> set ds. dl_type d = t \<or> dl_type d = Equal \<or> dl_type d = Replace)"

text \<open>
  \<open>shadowed l ys\<close>: after the leading lines of \<open>ys\<close> that equal \<open>l\<close>, the second remaining
  line is \<open>l\<close> again.  This is where the look-ahead on the original side (step 4) fires
  before the look-ahead on the modified side (step 5) when \<open>l\<close> was inserted in front of
  \<open>ys\<close>.
\<close>

definition shadowed :: "string \<Rightarrow> string list \<Rightarrow> bool" where
  "shadowed l ys =
     (case dropWhile (\<lambda>y. y = l) ys of
        y # y' # _ \<Rightarrow> y' = l
      | _ \<Rightarrow> False)"

subsection \<open>diffToChanges\<close>

datatype ChangeType = Addition | Deletion | Modification

datatype Status = Pending | Accepted | Rejected

text \<open>
  Type \<open>Change\<close> of shared/schema.ts.  \<open>content\<close> is copied from a \<open>DiffLine\<close>;
  \<open>lineNumber\<close> is a JavaScript number, modelled as an integer.
\<close>

record Change =
  ch_id :: string
  ch_type :: ChangeType
  lineNumber :: int
  ch_content :: "string option"
  ch_originalContent :: "string option"
  ch_status :: Status

text \<open>\<open>String(n)\<close> for a non-negative integer: its decimal digits.\<close>

definition digitChar :: "nat \<Rightarrow> char" where
  "digitChar d = char_of (48 + d)"

fun String_of_nat :: "nat \<Rightarrow> string" where
  "String_of_nat n =
     (if n < 10 then [digitChar n] else String_of_nat (n div 10) @ [digitChar (n mod 10)])"

declare String_of_nat.simps [simp del]

text \<open>\<open>index || 0\<close> for an optional index: an absent index counts as 0.\<close>

definition orZero :: "nat option \<Rightarrow> nat" where
  "orZero k = (case k of None \<Rightarrow> 0 | Some n \<Rightarrow> n)"

text \<open>
  The \<open>switch\<close> of \<open>diffToChanges\<close>: the change type and line number of an entry;
  \<open>None\<close> is the \<open>default: return\<close>.
\<close>

definition changeOfEntry :: "DiffLine \<Rightarrow> (ChangeType \<times> int) option" where
  "changeOfEntry line =
     (case dl_type line of
        Insert \<Rightarrow> Some (Addition, int (orZero (modifiedIndex line)) + 1)
      | Delete \<Rightarrow> Some (Deletion, int (orZero (originalIndex line)) + 1)
      | Replace \<Rightarrow> Some (Modification, int (orZero (modifiedIndex line)) + 1)
      | Equal \<Rightarrow> None)"

text \<open>
  The \<open>forEach\<close> of \<open>diffToChanges\<close>, with the counter \<open>changeId\<close> and the array
  \<open>changes\<close> as state.
\<close>

fun diffToChangesLoop :: "DiffLine list \<Rightarrow> nat \<Rightarrow> Change list \<Rightarrow> Change list" where
  "diffToChangesLoop [] changeId changes = changes"
| "diffToChangesLoop (line # rest) changeId changes =
     (if dl_type line \<noteq> Equal then
        (case changeOfEntry line of
           None \<Rightarrow> diffToChangesLoop rest changeId changes
         | Some (changeType, n) \<Rightarrow>
             diffToChangesLoop rest (changeId + 1)
               (changes @
                [\<lparr>ch_id = String_of_nat changeId, ch_type = changeType, lineNumber = n,
                  ch_content = dl_content line,
                  ch_originalContent = dl_originalContent line,
                  ch_status = Pending\<rparr>]))
      else diffToChangesLoop rest changeId changes)"

definition diffToChanges :: "DiffLine list \<Rightarrow> Change list" where
  "diffToChanges diff = diffToChangesLoop diff 1 []"

text \<open>
  \<open>toChanges\<close> as the specification words it: what one entry maps to, as change type and
  1-based line number, with no change for an \<open>equal\<close> entry.
\<close>

fun toChanges_spec :: "DiffLine list \<Rightarrow> (ChangeType \<times> int) list" where
  "toChanges_spec [] = []"
| "toChanges_spec (d # ds) =
     (case dl_type d of
        Equal \<Rightarrow> toChanges_spec ds
      | Insert \<Rightarrow> (Addition, int (orZero (modifiedIndex d)) + 1) # toChanges_spec ds
      | Delete \<Rightarrow> (Deletion, int (orZero (originalIndex d)) + 1) # toChanges_spec ds
      | Replace \<Rightarrow> (Modification, int (orZero (modifiedIndex d)) + 1) # toChanges_spec ds)"

subsection \<open>applyChanges\<close>

text \<open>
  \<open>lines.splice(k, 1)\<close>: a negative start counts from the end (not below 0), a start
  beyond the end is the end; the element there, if any, is removed.
\<close>

definition splice1 :: "string list \<Rightarrow> int \<Rightarrow> string list" where
  "splice1 lines k =
     (let n = int (length lines);
          start = nat (if k < 0 then max (n + k) 0 else min k n)
      in take start lines @ drop (start + 1) lines)"

text \<open>
  \<open>lines[k] = v\<close>.  An array index is an integer from 0 to \<open>2^32 - 2\<close>: for any other
  \<open>k\<close> (negative, or \<open>2^32 - 1\<close> and more) the assignment sets a property and leaves the
  elements alone.  An array index beyond the end extends the array with holes, which
  \<open>join\<close> prints as empty strings, so a hole is kept as the empty line.
\<close>

definition assignLine :: "string list \<Rightarrow> int \<Rightarrow> string \<Rightarrow> string list" where
  "assignLine lines k v =
     (if k < 0 then lines
      else if nat k < length lines then lines[nat k := v]
      else if k < 2 ^ 32 - 1 then lines @ replicate (nat k - length lines) [] @ [v]
      else lines)"

text \<open>
  The index is \<open>change.lineNumber - 1\<close>, computed on doubles.  It is exact for a line number
  below \<open>2^53\<close> in size; for a larger one the exact and the rounded difference both lie
  outside every array, on the same side, and \<open>splice\<close> and the assignment act alike on
  them.
\<close>

definition applyAccepted :: "Change \<Rightarrow> string list \<Rightarrow> string list" where
  "applyAccepted change lines =
     (let lineIndex = lineNumber change - 1 in
      if ch_type change = Deletion then splice1 lines lineIndex else lines)"

text \<open>
  The restore of a rejected modification runs when \<open>originalContent\<close> is truthy: present
  and not the empty string.
\<close>

definition applyRejected :: "Change \<Rightarrow> string list \<Rightarrow> string list" where
  "applyRejected change lines =
     (let lineIndex = lineNumber change - 1 in
      if ch_type change = Addition then splice1 lines lineIndex
      else if ch_type change = Modification then
        (case ch_originalContent change of
           Some originalContent \<Rightarrow>
             if originalContent \<noteq> [] then assignLine lines lineIndex originalContent
             else lines
         | None \<Rightarrow> lines)
      else lines)"

definition applyChanges :: "string \<Rightarrow> Change list \<Rightarrow> string" where
  "applyChanges content changes =
     (let lines = splitLines content;
          acceptedChanges = filter (\<lambda>change. ch_status change = Accepted) changes;
          rejectedChanges = filter (\<lambda>change. ch_status change = Rejected) changes;
          lines1 = fold applyAccepted acceptedChanges lines;
          lines2 = fold applyRejected rejectedChanges lines1
      in joinLines lines2)"

text \<open>
  \<open>alters c\<close>: \<open>c\<close> is one of the changes that \<open>applyChanges\<close> acts on: an accepted
  deletion, a rejected addition, or a rejected modification (one that carries a non-empty
  \<open>originalContent\<close> to restore).
\<close>

definition alters :: "Change \<Rightarrow> bool" where
  "alters c \<longleftrightarrow>
     (ch_status c = Accepted \<and> ch_type c = Deletion) \<or>
     (ch_status c = Rejected \<and> ch_type c = Addition) \<or>
     (ch_status c = Rejected \<and> ch_type c = Modification \<and>
      ch_originalContent c \<noteq> None \<and> ch_originalContent c \<noteq> Some [])"

section \<open>Change Store (server/storage.ts)\<close>

text \<open>
  Identifiers and counters are JavaScript numbers, that is doubles, and they only ever
  hold integers here; a number is modelled by the integer it holds.  A \<open>Date\<close> is a
  timestamp, and the clock reading \<open>new Date()\<close> is passed in by the caller of each
  operation.  An optional or nullable field is an option.
\<close>

text \<open>
  The new value of a counter after \<open>counter++\<close>: the sum \<open>n + 1\<close>, rounded to the nearest
  double, ties to the even mantissa.  Every integer from \<open>-2^53\<close> to \<open>2^53\<close> is a double,
  so the sum is exact for \<open>n\<close> from \<open>-2^53\<close> to \<open>2^53 - 1\<close>.  Beyond that, doubles below
  \<open>2^54\<close> in size are the even integers, \<open>n + 1\<close> lies half way between \<open>n\<close> and
  \<open>n + 2\<close>, and the one with the even half is taken; still larger doubles are further
  apart and \<open>n + 1\<close> rounds back to \<open>n\<close>.  In particular a counter that has reached
  \<open>2^53\<close> stays there.
\<close>

definition jsIncrement :: "int \<Rightarrow> int" where
  "jsIncrement n =
     (if - (2 ^ 53) \<le> n \<and> n < 2 ^ 53 then n + 1
      else if \<bar>n\<bar> < 2 ^ 54 \<and> odd (\<bar>n\<bar> div 2) then n + 2
      else n)"

record Document =
  doc_id :: int
  doc_name :: string
  doc_content :: string
  doc_originalContent :: "string option"
  doc_mimeType :: "string option"
  doc_createdAt :: nat
  doc_updatedAt :: nat

record InsertDocument =
  ins_name :: string
  ins_content :: string
  ins_originalContent :: "string option"
  ins_mimeType :: "string option"

text \<open>\<open>Partial<InsertDocument>\<close>: every key may be absent (\<open>None\<close>).\<close>

record DocumentUpdate =
  upd_name :: "string option"
  upd_content :: "string option"
  upd_originalContent :: "string option option"
  upd_mimeType :: "string option option"

record Revision =
  rev_id :: int
  rev_documentId :: int
  rev_content :: string
  rev_changes :: "Change list option"
  rev_isAccepted :: "bool option"
  rev_createdAt :: nat

record InsertRevision =
  ir_documentId :: int
  ir_content :: string
  ir_changes :: "Change list option"
  ir_isAccepted :: "bool option"

record RevisionUpdate =
  ru_documentId :: "int option"
  ru_content :: "string option"
  ru_changes :: "Change list option"
  ru_isAccepted :: "bool option option"

text \<open>
  \<open>ChangeRecord\<close>, a row of the table \<open>changes\<close>: \<open>type\<close> and \<open>status\<close> are text columns.
  \<open>status\<close> is optional on insert, and \<open>createChange\<close> copies what it is given, so a
  stored record may lack it.
\<close>

record ChangeRecord =
  cr_id :: int
  cr_revisionId :: int
  cr_type :: string
  cr_lineNumber :: int
  cr_content :: string
  cr_originalContent :: "string option"
  cr_status :: "string option"
  cr_createdAt :: nat

record InsertChange =
  ic_revisionId :: int
  ic_type :: string
  ic_lineNumber :: int
  ic_content :: string
  ic_originalContent :: "string option"
  ic_status :: "string option"

record ChangeUpdate =
  cu_revisionId :: "int option"
  cu_type :: "string option"
  cu_lineNumber :: "int option"
  cu_content :: "string option"
  cu_originalContent :: "string option option"
  cu_status :: "string option"

text \<open>Class \<open>MemStorage\<close>: three maps keyed by id and three counters.\<close>

record MemStorage =
  documents :: "int \<rightharpoonup> Document"
  revisions :: "int \<rightharpoonup> Revision"
  changes :: "int \<rightharpoonup> ChangeRecord"
  currentDocumentId :: int
  currentRevisionId :: int
  currentChangeId :: int

text \<open>The constructor.\<close>

definition newMemStorage :: MemStorage where
  "newMemStorage =
     \<lparr>documents = Map.empty, revisions = Map.empty, changes = Map.empty,
      currentDocumentId = 1, currentRevisionId = 1, currentChangeId = 1\<rparr>"

text \<open>\<open>{...a, ...b}\<close> on one field: the key of \<open>b\<close> wins when it is present.\<close>

definition spread :: "'a \<Rightarrow> 'a option \<Rightarrow> 'a" where
  "spread old new = (case new of None \<Rightarrow> old | Some v \<Rightarrow> v)"

subsection \<open>Document operations\<close>

definition getDocument :: "MemStorage \<Rightarrow> int \<Rightarrow> Document option" where
  "getDocument this id' = documents this id'"

definition createDocument ::
  "MemStorage \<Rightarrow> nat \<Rightarrow> InsertDocument \<Rightarrow> Document \<times> MemStorage" where
  "createDocument this now insertDocument =
     (let id' = currentDocumentId this;
          this1 = this\<lparr>currentDocumentId := jsIncrement (currentDocumentId this)\<rparr>;
          document =
            \<lparr>doc_id = id', doc_name = ins_name insertDocument,
             doc_content = ins_content insertDocument,
             doc_originalContent = ins_originalContent insertDocument,
             doc_mimeType = ins_mimeType insertDocument,
             doc_createdAt = now, doc_updatedAt = now\<rparr>
      in (document, this1\<lparr>documents := (documents this1)(id' \<mapsto> document)\<rparr>))"

definition updateDocument ::
  "MemStorage \<Rightarrow> nat \<Rightarrow> int \<Rightarrow> DocumentUpdate \<Rightarrow> Document option \<times> MemStorage" where
  "updateDocument this now id' updateData =
     (case documents this id' of
        None \<Rightarrow> (None, this)
      | Some document \<Rightarrow>
          (let updatedDocument =
                 document\<lparr>doc_name := spread (doc_name document) (upd_name updateData),
                   doc_content := spread (doc_content document) (upd_content updateData),
                   doc_originalContent :=
                     spread (doc_originalContent document) (upd_originalContent updateData),
                   doc_mimeType := spread (doc_mimeType document) (upd_mimeType updateData),
                   doc_updatedAt := now\<rparr>
           in (Some updatedDocument,
               this\<lparr>documents := (documents this)(id' \<mapsto> updatedDocument)\<rparr>)))"

text \<open>\<open>Map.delete\<close> answers whether the key was present.\<close>

definition deleteDocument :: "MemStorage \<Rightarrow> int \<Rightarrow> bool \<times> MemStorage" where
  "deleteDocument this id' =
     (documents this id' \<noteq> None, this\<lparr>documents := (documents this)(id' := None)\<rparr>)"

subsection \<open>Revision operations\<close>

definition getRevision :: "MemStorage \<Rightarrow> int \<Rightarrow> Revision option" where
  "getRevision this id' = revisions this id'"

definition createRevision ::
  "MemStorage \<Rightarrow> nat \<Rightarrow> InsertRevision \<Rightarrow> Revision \<times> MemStorage" where
  "createRevision this now insertRevision =
     (let id' = currentRevisionId this;
          this1 = this\<lparr>currentRevisionId := jsIncrement (currentRevisionId this)\<rparr>;
          revision =
            \<lparr>rev_id = id', rev_documentId = ir_documentId insertRevision,
             rev_content = ir_content insertRevision,
             rev_changes = ir_changes insertRevision,
             rev_isAccepted = ir_isAccepted insertRevision,
             rev_createdAt = now\<rparr>
      in (revision, this1\<lparr>revisions := (revisions this1)(id' \<mapsto> revision)\<rparr>))"

definition updateRevision ::
  "MemStorage \<Rightarrow> int \<Rightarrow> RevisionUpdate \<Rightarrow> Revision option \<times> MemStorage" where
  "updateRevision this id' updateData =
     (case revisions this id' of
        None \<Rightarrow> (None, this)
      | Some revision \<Rightarrow>
          (let updatedRevision =
                 revision\<lparr>rev_documentId :=
                     spread (rev_documentId revision) (ru_documentId updateData),
                   rev_content := spread (rev_content revision) (ru_content updateData),
                   rev_changes :=
                     (case ru_changes updateData of
                        None \<Rightarrow> rev_changes revision
                      | Some cs \<Rightarrow> Some cs),
                   rev_isAccepted :=
                     spread (rev_isAccepted revision) (ru_isAccepted updateData)\<rparr>
           in (Some updatedRevision,
               this\<lparr>revisions := (revisions this)(id' \<mapsto> updatedRevision)\<rparr>)))"

subsection \<open>Change operations\<close>

definition getChange :: "MemStorage \<Rightarrow> int \<Rightarrow> ChangeRecord option" where
  "getChange this id' = changes this id'"

definition createChange ::
  "MemStorage \<Rightarrow> nat \<Rightarrow> InsertChange \<Rightarrow> ChangeRecord \<times> MemStorage" where
  "createChange this now insertChange =
     (let id' = currentChangeId this;
          this1 = this\<lparr>currentChangeId := jsIncrement (currentChangeId this)\<rparr>;
          change =
            \<lparr>cr_id = id', cr_revisionId = ic_revisionId insertChange,
             cr_type = ic_type insertChange, cr_lineNumber = ic_lineNumber insertChange,
             cr_content = ic_content insertChange,
             cr_originalContent = ic_originalContent insertChange,
             cr_status = ic_status insertChange, cr_createdAt = now\<rparr>
      in (change, this1\<lparr>changes := (changes this1)(id' \<mapsto> change)\<rparr>))"

definition updateChange ::
  "MemStorage \<Rightarrow> int \<Rightarrow> ChangeUpdate \<Rightarrow> ChangeRecord option \<times> MemStorage" where
  "updateChange this id' updateData =
     (case changes this id' of
        None \<Rightarrow> (None, this)
      | Some change \<Rightarrow>
          (let updatedChange =
                 change\<lparr>cr_revisionId := spread (cr_revisionId change) (cu_revisionId updateData),
                   cr_type := spread (cr_type change) (cu_type updateData),
                   cr_lineNumber := spread (cr_lineNumber change) (cu_lineNumber updateData),
                   cr_content := spread (cr_content change) (cu_content updateData),
                   cr_originalContent :=
                     spread (cr_originalContent change) (cu_originalContent updateData),
                   cr_status :=
                     (case cu_status updateData of
                        None \<Rightarrow> cr_status change
                      | Some s \<Rightarrow> Some s)\<rparr>
           in (Some updatedChange,
               this\<lparr>changes := (changes this)(id' \<mapsto> updatedChange)\<rparr>)))"

text \<open>\<open>updateChangeStatus(id, status)\<close> is \<open>updateChange(id, { status })\<close>.\<close>

definition updateChangeStatus ::
  "MemStorage \<Rightarrow> int \<Rightarrow> string \<Rightarrow> ChangeRecord option \<times> MemStorage" where
  "updateChangeStatus this id' status =
     updateChange this id'
       \<lparr>cu_revisionId = None, cu_type = None, cu_lineNumber = None, cu_content = None,
        cu_originalContent = None, cu_status = Some status\<rparr>"

subsection \<open>Sequences of store operations\<close>

text \<open>
  A call of one of the mutating methods of the store, with its arguments, and what it
  returns.  \<open>run\<close> performs a list of calls in order, each with the clock reading at the
  time of the call.
\<close>

datatype StoreCall =
    CreateDocument InsertDocument
  | UpdateDocument int DocumentUpdate
  | DeleteDocument int
  | CreateRevision InsertRevision
  | UpdateRevision int RevisionUpdate
  | CreateChange InsertChange
  | UpdateChange int ChangeUpdate
  | UpdateChangeStatus int string

datatype StoreResult =
    CreatedDocument Document
  | UpdatedDocument "Document option"
  | Deleted bool
  | CreatedRevision Revision
  | UpdatedRevision "Revision option"
  | CreatedChange ChangeRecord
  | UpdatedChange "ChangeRecord option"

fun call :: "nat \<Rightarrow> StoreCall \<Rightarrow> MemStorage \<Rightarrow> StoreResult \<times> MemStorage" where
  "call now (CreateDocument d) this = map_prod CreatedDocument id (createDocument this now d)"
| "call now (UpdateDocument i u) this = map_prod UpdatedDocument id (updateDocument this now i u)"
| "call now (DeleteDocument i) this = map_prod Deleted id (deleteDocument this i)"
| "call now (CreateRevision r) this = map_prod CreatedRevision id (createRevision this now r)"
| "call now (UpdateRevision i u) this = map_prod UpdatedRevision id (updateRevision this i u)"
| "call now (CreateChange c) this = map_prod CreatedChange id (createChange this now c)"
| "call now (UpdateChange i u) this = map_prod UpdatedChange id (updateChange this i u)"
| "call now (UpdateChangeStatus i s) this =
     map_prod UpdatedChange id (updateChangeStatus this i s)"

fun run :: "(nat \<times> StoreCall) list \<Rightarrow> MemStorage \<Rightarrow> StoreResult list \<times> MemStorage" where
  "run [] this = ([], this)"
| "run ((now, c) # cs) this =
     (let (r, this1) = call now c this;
          (rs, this2) = run cs this1
      in (r # rs, this2))"

text \<open>The ids that the \<open>createDocument\<close> calls of a run returned, in order.\<close>

fun createdDocumentIds :: "StoreResult list \<Rightarrow> int list" where
  "createdDocumentIds [] = []"
| "createdDocumentIds (CreatedDocument d # rs) = doc_id d # createdDocumentIds rs"
| "createdDocumentIds (_ # rs) = createdDocumentIds rs"

fun isCreateDocument :: "nat \<times> StoreCall \<Rightarrow> bool" where
  "isCreateDocument (_, CreateDocument _) = True"
| "isCreateDocument _ = False"

section \<open>AI Provider Gateway (server/ai-providers.ts)\<close>

subsection \<open>Response normalisation\<close>

text \<open>
  Characters are code units below 256.  \<open>\s\<close> of a JavaScript regular expression matches,
  among these, tab, line feed, vertical tab, form feed, carriage return, space and the
  no-break space.
\<close>

definition js_space :: "char \<Rightarrow> bool" where
  "js_space c \<longleftrightarrow>
     c \<in> {CHR 0x09, CHR 0x0A, CHR 0x0B, CHR 0x0C, CHR 0x0D, CHR 0x20, CHR 0xA0}"

text \<open>JSON text allows space, tab, line feed and carriage return around a value.\<close>

definition json_ws :: "char \<Rightarrow> bool" where
  "json_ws c \<longleftrightarrow> c \<in> {CHR 0x20, CHR 0x09, CHR 0x0A, CHR 0x0D}"

definition ticks :: string where
  "ticks = replicate 3 (CHR 0x60)"

definition fenceOpen :: string where
  "fenceOpen = ticks @ ''json''"

text \<open>
  \<open>responseText.replace(/^```json\s*|```\s*$/g, '')\<close>.  The first alternative can only
  match at the start of the text: the opening fence and the white space after it.  The
  second alternative matches at the leftmost position, at or after the end of that match,
  where three backticks are followed by nothing but white space up to the end of the text;
  the match runs to the end, so there is at most one.
\<close>

definition stripLead :: "string \<Rightarrow> string" where
  "stripLead s =
     (if take (length fenceOpen) s = fenceOpen
      then dropWhile js_space (drop (length fenceOpen) s) else s)"

definition fenceToEnd :: "string \<Rightarrow> bool" where
  "fenceToEnd s \<longleftrightarrow> take 3 s = ticks \<and> list_all js_space (drop 3 s)"

fun stripTrail :: "string \<Rightarrow> string" where
  "stripTrail [] = []"
| "stripTrail (c # cs) = (if fenceToEnd (c # cs) then [] else c # stripTrail cs)"

definition stripFence :: "string \<Rightarrow> string" where
  "stripFence s = stripTrail (stripLead s)"

subsection \<open>The outside world\<close>

datatype AIProvider = OpenAI | Google | Anthropic | Cohere | Azure | HuggingFace | Perplexity

fun providerName :: "AIProvider \<Rightarrow> string" where
  "providerName OpenAI = ''openai''"
| "providerName Google = ''google''"
| "providerName Anthropic = ''anthropic''"
| "providerName Cohere = ''cohere''"
| "providerName Azure = ''azure''"
| "providerName HuggingFace = ''huggingface''"
| "providerName Perplexity = ''perplexity''"

text \<open>A thrown \<open>Error\<close>, with its message.\<close>

datatype error = Error string

text \<open>
  One request to a vendor: the provider and the arguments of \<open>getAIResponse\<close> it is made
  for.
\<close>

record VendorCall =
  vc_provider :: AIProvider
  vc_prompt :: string
  vc_temperature :: real
  vc_useJsonFormat :: bool

datatype LogLine =
    ConsoleError string error
  | ConsoleErrorText string "string option"
  | ConsoleLog string

text \<open>
  What the program has done to the outside so far: the vendor requests it has sent and the
  lines it has written to the console, in order.
\<close>

record World =
  vendorCalls :: "VendorCall list"
  console :: "LogLine list"

text \<open>
  What the program is given from the outside.  \<open>vendor k c\<close> is what the vendor SDK does
  for request \<open>c\<close> when \<open>k\<close> requests were sent before it: it throws, or it delivers the
  text field that the binding reads (\<open>None\<close> when that field is null or missing).
  \<open>JSON_parse\<close> is \<open>JSON.parse\<close>, which throws or returns a value; \<open>JSON_stringify\<close> is
  \<open>JSON.stringify\<close> applied to the list of analyses; \<open>GOOGLE_AI_API_KEY\<close> is the
  environment variable.
\<close>

record 'j Env =
  vendor :: "nat \<Rightarrow> VendorCall \<Rightarrow> error + string option"
  JSON_parse :: "string \<Rightarrow> error + 'j"
  JSON_stringify :: "(AIProvider \<times> 'j) list \<Rightarrow> string"
  GOOGLE_AI_API_KEY :: "string option"

definition callVendor :: "'j Env \<Rightarrow> VendorCall \<Rightarrow> World \<Rightarrow> (error + string option) \<times> World" where
  "callVendor env c w =
     (vendor env (length (vendorCalls w)) c, w\<lparr>vendorCalls := vendorCalls w @ [c]\<rparr>)"

definition consoleWrite :: "LogLine list \<Rightarrow> World \<Rightarrow> World" where
  "consoleWrite ls w = w\<lparr>console := console w @ ls\<rparr>"

text \<open>A string or \<open>undefined\<close> is truthy when it is a non-empty string.\<close>

definition truthy :: "string option \<Rightarrow> bool" where
  "truthy v = (case v of None \<Rightarrow> False | Some s \<Rightarrow> s \<noteq> [])"

text \<open>\<open>text || '{}'\<close>.\<close>

definition orEmptyObject :: "string option \<Rightarrow> string" where
  "orEmptyObject v = (case v of None \<Rightarrow> ''{}'' | Some s \<Rightarrow> if s = [] then ''{}'' else s)"

subsection \<open>parseAIResponseJSON\<close>

text \<open>
  The argument is whatever the vendor binding read: a string, or \<open>undefined\<close>, on which
  \<open>replace\<close> throws a \<open>TypeError\<close> inside the \<open>try\<close>.  The \<open>catch\<close> writes the caught
  error and the raw response to the console and throws a new \<open>Error\<close> with a fixed
  message.  The copy of this function in server/ai-services-enhanced.ts is the same.
\<close>

definition parseAIResponseJSON ::
  "'j Env \<Rightarrow> string option \<Rightarrow> World \<Rightarrow> (error + 'j) \<times> World" where
  "parseAIResponseJSON env responseText w =
     (case (case responseText of
              None \<Rightarrow> Inl (Error ''TypeError'')
            | Some t \<Rightarrow> JSON_parse env (stripFence t)) of
        Inr v \<Rightarrow> (Inr v, w)
      | Inl e \<Rightarrow>
          (Inl (Error ''Failed to parse AI response as JSON''),
           consoleWrite
             [ConsoleError ''AI response JSON parsing error:'' e,
              ConsoleErrorText ''Raw response:'' responseText] w))"

subsection \<open>getAIResponse\<close>

text \<open>
  One vendor binding: send the request, then parse the text that \<open>pick\<close> selects from
  what the vendor delivered.  A throw of the SDK is passed on.
\<close>

definition vendorThenParse ::
  "'j Env \<Rightarrow> VendorCall \<Rightarrow> (string option \<Rightarrow> string option) \<Rightarrow> World \<Rightarrow> (error + 'j) \<times> World" where
  "vendorThenParse env c pick w =
     (case callVendor env c w of
        (Inl e, w1) \<Rightarrow> (Inl e, w1)
      | (Inr text, w1) \<Rightarrow> parseAIResponseJSON env (pick text) w1)"

text \<open>\<open>textContent ? textContent.text : '{}'\<close>.\<close>

definition textBlockOr :: "string option \<Rightarrow> string option" where
  "textBlockOr v = (case v of None \<Rightarrow> Some ''{}'' | Some t \<Rightarrow> Some t)"

text \<open>The body of the \<open>try\<close> of \<open>getAIResponse\<close>: the \<open>switch\<close> over the provider.\<close>

definition tryProvider ::
  "'j Env \<Rightarrow> string \<Rightarrow> AIProvider \<Rightarrow> real \<Rightarrow> bool \<Rightarrow> World \<Rightarrow> (error + 'j) \<times> World" where
  "tryProvider env prompt provider temperature useJsonFormat w =
     (let c = \<lparr>vc_provider = provider, vc_prompt = prompt, vc_temperature = temperature,
                vc_useJsonFormat = useJsonFormat\<rparr>
      in case provider of
           OpenAI \<Rightarrow> vendorThenParse env c (\<lambda>content. Some (orEmptyObject content)) w
         | Google \<Rightarrow> vendorThenParse env c (\<lambda>text. text) w
         | Anthropic \<Rightarrow> vendorThenParse env c textBlockOr w
         | Cohere \<Rightarrow> vendorThenParse env c (\<lambda>text. text) w
         | Azure \<Rightarrow> (Inl (Error ''Azure OpenAI provider requires proper configuration''), w)
         | HuggingFace \<Rightarrow>
             vendorThenParse env c (\<lambda>generated_text. Some (orEmptyObject generated_text)) w
         | Perplexity \<Rightarrow> vendorThenParse env c (\<lambda>content. content) w)"

text \<open>
  \<open>getAIResponse\<close> of server/ai-providers.ts: the \<open>try\<close>, and in the \<open>catch\<close> the call of
  itself for Google when the failed provider is not Google and the key is set.
\<close>

function getAIResponse ::
  "'j Env \<Rightarrow> string \<Rightarrow> AIProvider \<Rightarrow> real \<Rightarrow> bool \<Rightarrow> World \<Rightarrow> (error + 'j) \<times> World" where
  "getAIResponse env prompt provider temperature useJsonFormat w =
     (case tryProvider env prompt provider temperature useJsonFormat w of
        (Inr v, w1) \<Rightarrow> (Inr v, w1)
      | (Inl e, w1) \<Rightarrow>
          (let w2 = consoleWrite
                 [ConsoleError (''Error with '' @ providerName provider @ '' provider:'') e] w1
           in if provider \<noteq> Google \<and> truthy (GOOGLE_AI_API_KEY env) then
                getAIResponse env prompt Google temperature useJsonFormat
                  (consoleWrite [ConsoleLog ''Falling back to Google AI...''] w2)
              else (Inl e, w2)))"
  by pat_completeness auto
termination
  by (relation "measure (\<lambda>(env, prompt, provider, temperature, useJsonFormat, w).
        if provider = Google then 0 else 1)") auto

declare getAIResponse.simps [simp del]

section \<open>Editing and analysis services (server/ai-services-enhanced.ts)\<close>

text \<open>
  The \<open>getAIResponse\<close> of this file: the same bindings for four providers, no \<open>catch\<close>,
  and the \<open>default\<close> branch for any other provider.
\<close>

definition getAIResponse_enhanced ::
  "'j Env \<Rightarrow> string \<Rightarrow> AIProvider \<Rightarrow> real \<Rightarrow> bool \<Rightarrow> World \<Rightarrow> (error + 'j) \<times> World" where
  "getAIResponse_enhanced env prompt provider temperature useJsonFormat w =
     (let c = \<lparr>vc_provider = provider, vc_prompt = prompt, vc_temperature = temperature,
                vc_useJsonFormat = useJsonFormat\<rparr>
      in case provider of
           OpenAI \<Rightarrow> vendorThenParse env c (\<lambda>content. Some (orEmptyObject content)) w
         | Google \<Rightarrow> vendorThenParse env c (\<lambda>text. text) w
         | Anthropic \<Rightarrow> vendorThenParse env c textBlockOr w
         | Cohere \<Rightarrow> vendorThenParse env c (\<lambda>text. text) w
         | _ \<Rightarrow> (Inl (Error (''Unsupported AI provider: '' @ providerName provider)), w))"

subsection \<open>multiProviderConsensus\<close>

definition consensusPrompt :: "string \<Rightarrow> string \<Rightarrow> string \<Rightarrow> string" where
  "consensusPrompt analysisType content analysesJson =
     ''You are a master editor synthesizing multiple AI analyses into a single, authoritative result.''
     @ [newline, newline] @ ''Analysis Type: '' @ analysisType
     @ [newline, newline] @ ''Original Content:'' @ [newline] @ content
     @ [newline, newline] @ ''Multiple AI Analyses:'' @ [newline] @ analysesJson
     @ [newline, newline] @ ''Instructions:''
     @ [newline] @ ''1. Compare all analyses for accuracy and completeness''
     @ [newline] @ ''2. Identify areas of agreement and disagreement''
     @ [newline] @ ''3. Synthesize the best insights from each analysis''
     @ [newline] @ ''4. Resolve conflicts using your editorial judgment''
     @ [newline] @ ''5. Create a comprehensive, authoritative final analysis''
     @ [newline] @ ''6. Include a '' @ [CHR 0x22] @ ''consensusNotes'' @ [CHR 0x22]
     @ '' field explaining your methodology''
     @ [newline, newline] @ ''Return the final consensus analysis in the standard JSON format.''"

text \<open>
  The \<open>for\<close> loop over the providers: \<open>analysisFunction\<close> is the function passed in, which
  acts on the world and returns or throws; a success is pushed onto \<open>analyses\<close>, a failure
  is written to the console.
\<close>

fun consensusLoop ::
  "(string \<Rightarrow> AIProvider \<Rightarrow> World \<Rightarrow> (error + 'j) \<times> World) \<Rightarrow> string \<Rightarrow> AIProvider list \<Rightarrow>
   (AIProvider \<times> 'j) list \<Rightarrow> World \<Rightarrow> (AIProvider \<times> 'j) list \<times> World" where
  "consensusLoop analysisFunction content [] analyses w = (analyses, w)"
| "consensusLoop analysisFunction content (provider # providers) analyses w =
     (case analysisFunction content provider w of
        (Inr analysis, w1) \<Rightarrow>
          consensusLoop analysisFunction content providers (analyses @ [(provider, analysis)]) w1
      | (Inl e, w1) \<Rightarrow>
          consensusLoop analysisFunction content providers analyses
            (consoleWrite [ConsoleError (providerName provider @ '' analysis failed:'') e] w1))"

definition defaultConsensusProviders :: "AIProvider list" where
  "defaultConsensusProviders = [OpenAI, Google, Anthropic]"

definition multiProviderConsensus ::
  "'j Env \<Rightarrow> string \<Rightarrow> string \<Rightarrow> (string \<Rightarrow> AIProvider \<Rightarrow> World \<Rightarrow> (error + 'j) \<times> World) \<Rightarrow>
   AIProvider list option \<Rightarrow> World \<Rightarrow> (error + 'j) \<times> World" where
  "multiProviderConsensus env content analysisType analysisFunction providers w =
     (let ps = (case providers of None \<Rightarrow> defaultConsensusProviders | Some ps \<Rightarrow> ps);
          (analyses, w1) = consensusLoop analysisFunction content ps [] w
      in if length analyses = 0 then
           (Inl (Error ''All AI providers failed to complete analysis''), w1)
         else if length analyses = 1 then
           (case analyses of
              a # _ \<Rightarrow> (Inr (snd a), w1)
            | [] \<Rightarrow> (Inl (Error ''TypeError''), w1))
         else
           getAIResponse_enhanced env
             (consensusPrompt analysisType content (JSON_stringify env analyses))
             OpenAI 0.2 True w1)"

text \<open>
  The surviving analyses as the specification words them: the providers are tried one at
  a time, in order, each in the world the earlier ones left; a provider that fails is
  skipped (its failure is logged) and one that succeeds contributes its analysis.
\<close>

fun survivors ::
  "(string \<Rightarrow> AIProvider \<Rightarrow> World \<Rightarrow> (error + 'j) \<times> World) \<Rightarrow> string \<Rightarrow> AIProvider list \<Rightarrow>
   World \<Rightarrow> (AIProvider \<times> 'j) list \<times> World" where
  "survivors f content [] w = ([], w)"
| "survivors f content (p # ps) w =
     (case f content p w of
        (Inr a, w1) \<Rightarrow> (case survivors f content ps w1 of (rest, w2) \<Rightarrow> ((p, a) # rest, w2))
      | (Inl e, w1) \<Rightarrow>
          survivors f content ps
            (consoleWrite [ConsoleError (providerName p @ '' analysis failed:'') e] w1))"

section \<open>Request handlers (server/routes.ts)\<close>

text \<open>
  A handler answers with a status code and a JSON body, and may change the store.  The id
  in the path goes through \<open>parseInt\<close>, which gives an integer or \<open>NaN\<close> (\<open>None\<close>); no
  key of the store is \<open>NaN\<close>.  The request bodies considered have string fields, each
  present or absent (\<open>None\<close>).  What a handler writes to the console is left out.
\<close>

datatype Body =
    Message string
  | ChangeJson ChangeRecord
  | AiEditJson Revision string "Change list"

datatype Response = Response nat Body

subsection \<open>PATCH /api/changes/:id/status\<close>

definition patchChangeStatus ::
  "MemStorage \<Rightarrow> int option \<Rightarrow> string option \<Rightarrow> Response \<times> MemStorage" where
  "patchChangeStatus storage idParam status =
     (case status of
        None \<Rightarrow> (Response 400 (Message ''Invalid status''), storage)
      | Some s \<Rightarrow>
          if s \<notin> set [''accepted'', ''rejected''] then
            (Response 400 (Message ''Invalid status''), storage)
          else
            (case idParam of
               None \<Rightarrow> (Response 404 (Message ''Change not found''), storage)
             | Some id' \<Rightarrow>
                 (case updateChangeStatus storage id' s of
                    (None, storage1) \<Rightarrow> (Response 404 (Message ''Change not found''), storage1)
                  | (Some change, storage1) \<Rightarrow> (Response 200 (ChangeJson change), storage1))))"

text \<open>A list of such requests, handled one after the other.\<close>

fun patchAll :: "(int option \<times> string option) list \<Rightarrow> MemStorage \<Rightarrow> Response list \<times> MemStorage" where
  "patchAll [] storage = ([], storage)"
| "patchAll ((idParam, status) # reqs) storage =
     (let (r, storage1) = patchChangeStatus storage idParam status;
          (rs, storage2) = patchAll reqs storage1
      in (r # rs, storage2))"

text \<open>
  \<open>resolved storage c\<close>: the store holds a change with id \<open>c\<close> whose status is
  \<open>accepted\<close> or \<open>rejected\<close>.
\<close>

definition resolved :: "MemStorage \<Rightarrow> int \<Rightarrow> bool" where
  "resolved storage c =
     (case changes storage c of
        None \<Rightarrow> False
      | Some change \<Rightarrow>
          cr_status change = Some ''accepted'' \<or> cr_status change = Some ''rejected'')"

subsection \<open>POST /api/documents/:id/ai-edit\<close>

record AiEditBody =
  body_instructions :: "string option"
  body_editType :: "string option"
  body_provider :: "string option"

text \<open>\<open>EditResponse\<close>, what an edit service returns.\<close>

record EditResponse =
  er_editedContent :: string
  er_changes :: "Change list"
  er_summary :: string

text \<open>
  The snapshot of the proposed changes stored with the revision: each change is copied
  with a fresh id and status pending.  \<open>random k\<close> is the id that
  \<open>Math.random().toString(36).substr(2, 9)\<close> gives for the change at index \<open>k\<close>.
\<close>

definition pendingSnapshot :: "(nat \<Rightarrow> string) \<Rightarrow> Change list \<Rightarrow> Change list" where
  "pendingSnapshot random cs =
     map (\<lambda>(k, change).
           \<lparr>ch_id = random k, ch_type = ch_type change, lineNumber = lineNumber change,
            ch_content = ch_content change,
            ch_originalContent = ch_originalContent change,
            ch_status = Pending\<rparr>)
         (enumerate 0 cs)"

text \<open>
  The handler.  The two edit services are parameters: each returns an \<open>EditResponse\<close> or
  throws, and a throw ends in the \<open>catch\<close> with status 500.
\<close>

definition aiEdit ::
  "(string \<Rightarrow> string \<Rightarrow> string \<Rightarrow> error + EditResponse) \<Rightarrow>
   (string \<Rightarrow> string \<Rightarrow> string \<Rightarrow> error + EditResponse) \<Rightarrow>
   (nat \<Rightarrow> string) \<Rightarrow> nat \<Rightarrow> MemStorage \<Rightarrow> int option \<Rightarrow> AiEditBody \<Rightarrow>
   Response \<times> MemStorage" where
  "aiEdit performDevelopmentalEdit performLineEdit random now storage idParam body =
     (let provider = (case body_provider body of None \<Rightarrow> ''openai'' | Some p \<Rightarrow> p) in
      case (body_instructions body, body_editType body) of
        (Some instructions, Some editType) \<Rightarrow>
          if instructions = [] \<or> editType = [] then
            (Response 400 (Message ''Instructions and editType are required''), storage)
          else if editType \<notin> set [''developmental'', ''line''] then
            (Response 400
               (Message (''editType must be '' @ [CHR 0x27] @ ''developmental'' @ [CHR 0x27]
                  @ '' or '' @ [CHR 0x27] @ ''line'' @ [CHR 0x27])), storage)
          else if provider \<notin> set [''openai'', ''google''] then
            (Response 400
               (Message (''provider must be '' @ [CHR 0x27] @ ''openai'' @ [CHR 0x27]
                  @ '' or '' @ [CHR 0x27] @ ''google'' @ [CHR 0x27])), storage)
          else
            (case idParam of
               None \<Rightarrow> (Response 404 (Message ''Document not found''), storage)
             | Some id' \<Rightarrow>
                 (case getDocument storage id' of
                    None \<Rightarrow> (Response 404 (Message ''Document not found''), storage)
                  | Some document \<Rightarrow>
                      (case (if editType = ''developmental''
                             then performDevelopmentalEdit (doc_content document) instructions
                                    provider
                             else performLineEdit (doc_content document) instructions
                                    provider) of
                         Inl e \<Rightarrow>
                           (Response 500 (Message ''Failed to perform AI edit''), storage)
                       | Inr editResponse \<Rightarrow>
                           (let (revision, storage1) =
                                  createRevision storage now
                                    \<lparr>ir_documentId = id',
                                     ir_content = er_editedContent editResponse,
                                     ir_changes =
                                       Some (pendingSnapshot random (er_changes editResponse)),
                                     ir_isAccepted = Some False\<rparr>
                            in (Response 200
                                  (AiEditJson revision (er_summary editResponse)
                                     (er_changes editResponse)),
                                storage1)))))
      | _ \<Rightarrow> (Response 400 (Message ''Instructions and editType are required''), storage))"

text \<open>The changes of the revisions in a store.\<close>

definition storedRevisionChanges :: "MemStorage \<Rightarrow> int \<Rightarrow> Change list" where
  "storedRevisionChanges storage r =
     (case revisions storage r of
        None \<Rightarrow> []
      | Some revision \<Rightarrow> (case rev_changes revision of None \<Rightarrow> [] | Some cs \<Rightarrow> cs))"

section \<open>Example inputs\<close>

text \<open>
  Concrete surroundings on which the functions above are run in the examples below.
  \<open>emptyObjectParser\<close> behaves as \<open>JSON.parse\<close> does on the texts used there: it accepts
  the empty object, with JSON white space around it, and throws on anything else.
\<close>

definition emptyObjectParser :: "string \<Rightarrow> error + unit" where
  "emptyObjectParser s =
     (let t = dropWhile json_ws s
      in if take 2 t = ''{}'' \<and> list_all json_ws (drop 2 t) then Inr ()
         else Inl (Error ''SyntaxError''))"

text \<open>A vendor where only Google answers, with the empty object; every other SDK throws.\<close>

definition onlyGoogleAnswers :: "nat \<Rightarrow> VendorCall \<Rightarrow> error + string option" where
  "onlyGoogleAnswers k c =
     (if vc_provider c = Google then Inr (Some ''{}'') else Inl (Error ''network''))"

definition exampleEnv :: "unit Env" where
  "exampleEnv =
     \<lparr>vendor = onlyGoogleAnswers, JSON_parse = emptyObjectParser,
      JSON_stringify = (\<lambda>analyses. ''[]''), GOOGLE_AI_API_KEY = Some ''key''\<rparr>"

definition world0 :: World where
  "world0 = \<lparr>vendorCalls = [], console = []\<rparr>"

text \<open>An analysis function that succeeds for every provider without touching the world.\<close>

definition alwaysSucceeds :: "string \<Rightarrow> AIProvider \<Rightarrow> World \<Rightarrow> (error + unit) \<times> World" where
  "alwaysSucceeds content provider w = (Inr (), w)"

text \<open>An analysis function that fails for every provider.\<close>

definition alwaysFails :: "string \<Rightarrow> AIProvider \<Rightarrow> World \<Rightarrow> (error + unit) \<times> World" where
  "alwaysFails content provider w = (Inl (Error ''down''), w)"

text \<open>A store holding one pending change, with id 1.\<close>

definition onePendingChange :: MemStorage where
  "onePendingChange =
     snd (createChange newMemStorage 0
       \<lparr>ic_revisionId = 1, ic_type = ''addition'', ic_lineNumber = 1, ic_content = ''x'',
        ic_originalContent = None, ic_status = Some ''pending''\<rparr>)"

text \<open>A vendor where every SDK answers with the empty object.\<close>

definition everyVendorAnswers :: "nat \<Rightarrow> VendorCall \<Rightarrow> error + string option" where
  "everyVendorAnswers k c = Inr (Some ''{}'')"

definition answeringEnv :: "unit Env" where
  "answeringEnv = exampleEnv\<lparr>vendor := everyVendorAnswers\<rparr>"

text \<open>An analysis function that fails for Google and succeeds for every other provider.\<close>

definition googleDown :: "string \<Rightarrow> AIProvider \<Rightarrow> World \<Rightarrow> (error + unit) \<times> World" where
  "googleDown content provider w =
     (if provider = Google then (Inl (Error ''down''), w) else (Inr (), w))"

text \<open>
  A store holding one document of three lines, an edit service whose response proposes
  one change (which it marks as accepted), and a request body for a developmental edit.
\<close>

definition oneDocument :: MemStorage where
  "oneDocument =
     snd (createDocument newMemStorage 0
       \<lparr>ins_name = ''a.txt'',
        ins_content = ''line1'' @ [newline] @ ''line2'' @ [newline] @ ''line3'',
        ins_originalContent = None, ins_mimeType = None\<rparr>)"

definition exampleEditService :: "string \<Rightarrow> string \<Rightarrow> string \<Rightarrow> error + EditResponse" where
  "exampleEditService content instructions provider =
     Inr \<lparr>er_editedContent = ''line1'' @ [newline] @ ''lineX'' @ [newline] @ ''line3'',
          er_changes =
            [\<lparr>ch_id = ''c1'', ch_type = Modification, lineNumber = 2,
              ch_content = Some ''lineX'', ch_originalContent = Some ''line2'',
              ch_status = Accepted\<rparr>],
          er_summary = ''one line changed''\<rparr>"

definition exampleBody :: AiEditBody where
  "exampleBody =
     \<lparr>body_instructions = Some ''tighten'', body_editType = Some ''developmental'',
      body_provider = None\<rparr>"

definition exampleInsert :: "string \<Rightarrow> InsertDocument" where
  "exampleInsert name =
     \<lparr>ins_name = name, ins_content = ''text'', ins_originalContent = None,
      ins_mimeType = None\<rparr>"

text \<open>The store after a PATCH request has accepted that change.\<close>

definition acceptedChange :: MemStorage where
  "acceptedChange = snd (patchChangeStatus onePendingChange (Some 1) (Some ''accepted''))"

section \<open>Properties\<close>

subsection \<open>The loop of generateDiff and the walk of the specification\<close>

lemma drop_eq_ConsD:
  assumes "drop i A = a # as"
  shows "i < length A" and "drop (Suc i) A = as"
proof -
  show lt: "i < length A"
  proof (rule ccontr)
    assume "\<not> i < length A"
    then have "drop i A = []" by simp
    with assms show False by simp
  qed
  from Cons_nth_drop_Suc[OF lt] assms show "drop (Suc i) A = as" by simp
qed

lemma lineAt_drop: "lineAt A i = (case drop i A of [] \<Rightarrow> None | a # _ \<Rightarrow> Some a)"
  by (auto simp: lineAt_def split: list.splits simp: hd_drop_conv_nth dest: arg_cong[where f=hd])

lemma lineAt_Suc_drop:
  "drop i A = a # as \<Longrightarrow> lineAt A (Suc i) = (case as of [] \<Rightarrow> None | a' # _ \<Rightarrow> Some a')"
  by (metis lineAt_drop drop_Suc tl_drop list.sel(3))

lemma diffLoop_diff_spec:
  "diffLoop A B i j acc = acc @ diff_spec i j (drop i A) (drop j B)"
proof (induction A B i j acc rule: diffLoop.induct)
  case (1 A B i j acc)
  show ?case
  proof (cases "drop i A")
    case Nil
    note dA = Nil
    show ?thesis
    proof (cases "drop j B")
      case Nil
      with dA show ?thesis by (subst diffLoop.simps) simp
    next
      case (Cons b bs)
      then have jlt: "j < length B" and dB: "drop (Suc j) B = bs"
        by (rule drop_eq_ConsD)+
      have "lineAt B j = Some b" using Cons by (simp add: lineAt_drop)
      with dA Cons jlt dB "1.IH"(1) show ?thesis
        by (subst diffLoop.simps) simp
    qed
  next
    case (Cons a as)
    note dA = Cons
    then have ilt: "i < length A" and dA': "drop (Suc i) A = as"
      by (rule drop_eq_ConsD)+
    have la: "lineAt A i = Some a" using dA by (simp add: lineAt_drop)
    have la': "lineAt A (Suc i) = (case as of [] \<Rightarrow> None | a' # _ \<Rightarrow> Some a')"
      using dA by (rule lineAt_Suc_drop)
    show ?thesis
    proof (cases "drop j B")
      case Nil
      with dA ilt dA' la "1.IH"(2) show ?thesis
        by (subst diffLoop.simps) simp
    next
      case (Cons b bs)
      then have jlt: "j < length B" and dB: "drop (Suc j) B = bs"
        by (rule drop_eq_ConsD)+
      have lb: "lineAt B j = Some b" using Cons by (simp add: lineAt_drop)
      have lb': "lineAt B (Suc j) = (case bs of [] \<Rightarrow> None | b' # _ \<Rightarrow> Some b')"
        using Cons by (rule lineAt_Suc_drop)
      show ?thesis
        using dA Cons ilt jlt dA' dB la lb la' lb' "1.IH"(3-6)
        by (subst diffLoop.simps) (auto split: list.splits)
    qed
  qed
qed

lemma splitLines_nonempty: "splitLines s \<noteq> []"
  by (induction s) (auto split: list.splits)

lemma joinLines_Cons: "ls \<noteq> [] \<Longrightarrow> joinLines (l # ls) = l @ newline # joinLines ls"
  by (cases ls) auto

lemma joinLines_splitLines: "joinLines (splitLines s) = s"
proof (induction s)
  case Nil
  show ?case by simp
next
  case (Cons c cs)
  obtain l ls where sp: "splitLines cs = l # ls"
    using splitLines_nonempty[of cs] by (cases "splitLines cs") auto
  show ?case
  proof (cases "c = newline")
    case True
    with Cons sp show ?thesis by (simp add: joinLines_Cons)
  next
    case False
    with Cons sp show ?thesis by (cases ls) auto
  qed
qed

lemma dl_type_entries [simp]:
  "dl_type (insertEntry j x) = Insert"
  "dl_type (deleteEntry i y) = Delete"
  "dl_type (equalEntry i j y) = Equal"
  "dl_type (replaceEntry i j y x) = Replace"
  by (simp_all add: insertEntry_def deleteEntry_def equalEntry_def replaceEntry_def)

lemma diff_spec_nil_left: "\<forall>d \<in> set (diff_spec i j [] bs). dl_type d = Insert"
  by (induction bs arbitrary: j) auto

lemma diff_spec_nil_right: "\<forall>d \<in> set (diff_spec i j as []). dl_type d = Delete"
  by (induction as arbitrary: i) auto

lemma diff_spec_same: "\<forall>d \<in> set (diff_spec i j xs xs). dl_type d = Equal"
  by (induction xs arbitrary: i j) auto

lemma diff_spec_prefix:
  "\<exists>eqs. (\<forall>d \<in> set eqs. dl_type d = Equal) \<and>
     diff_spec i j (xs @ as) (xs @ bs) = eqs @ diff_spec (i + length xs) (j + length xs) as bs"
proof (induction xs arbitrary: i j)
  case Nil
  show ?case by (rule exI[of _ "[]"]) simp
next
  case (Cons x xs)
  from Cons[of "i + 1" "j + 1"] obtain eqs where
    e: "\<forall>d \<in> set eqs. dl_type d = Equal"
    and s: "diff_spec (i + 1) (j + 1) (xs @ as) (xs @ bs) =
      eqs @ diff_spec (i + 1 + length xs) (j + 1 + length xs) as bs"
    by blast
  show ?case
    by (rule exI[of _ "equalEntry i j (Some x) # eqs"]) (use e s in simp)
qed

lemma filter_none: "(\<forall>d \<in> set ds. \<not> P d) \<Longrightarrow> filter P ds = []"
  by (induction ds) auto

lemma oneOnly_equal_Cons:
  "dl_type e = Equal \<Longrightarrow> t \<noteq> Equal \<Longrightarrow> oneOnly t (e # ds) = oneOnly t ds"
  by (auto simp: oneOnly_def)

lemma oneOnly_equals_append:
  "(\<forall>d \<in> set eqs. dl_type d = Equal) \<Longrightarrow> t \<noteq> Equal \<Longrightarrow> oneOnly t (eqs @ ds) = oneOnly t ds"
  by (induction eqs) (auto simp: oneOnly_equal_Cons)

lemma oneOnly_first:
  "dl_type e = t \<Longrightarrow> t \<noteq> Equal \<Longrightarrow> (\<forall>d \<in> set ds. dl_type d = Equal) \<Longrightarrow> oneOnly t (e # ds)"
  by (auto simp: oneOnly_def filter_none)

lemma oneOnly_other:
  "dl_type e \<noteq> t \<Longrightarrow> dl_type e \<noteq> Equal \<Longrightarrow> \<not> oneOnly t (e # ds)"
  by (auto simp: oneOnly_def)

lemma diff_spec_deleted: "oneOnly Delete (diff_spec i j (l # ys) ys)"
proof (induction ys arbitrary: l i j)
  case Nil
  show ?case by (simp add: oneOnly_first)
next
  case (Cons y ys)
  show ?case
  proof (cases "l = y")
    case True
    with Cons.IH[where l = y and i = "i + 1" and j = "j + 1"] show ?thesis
      by (simp add: oneOnly_equal_Cons)
  next
    case False
    then have "diff_spec i j (l # y # ys) (y # ys) =
        deleteEntry i (Some l) # diff_spec (i + 1) j (y # ys) (y # ys)"
      by (subst diff_spec.simps(4)) auto
    with diff_spec_same[of "i + 1" j "y # ys"] show ?thesis
      by (simp add: oneOnly_first del: diff_spec.simps)
  qed
qed

lemma diff_spec_inserted:
  "oneOnly Insert (diff_spec i j ys (l # ys)) \<longleftrightarrow> \<not> shadowed l ys"
proof (induction ys arbitrary: l i j)
  case Nil
  show ?case by (simp add: oneOnly_first shadowed_def)
next
  case (Cons y ys)
  show ?case
  proof (cases "l = y")
    case True
    with Cons.IH[where l = y and i = "i + 1" and j = "j + 1"] show ?thesis
      by (simp add: oneOnly_equal_Cons shadowed_def)
  next
    case False
    note ne = False
    show ?thesis
    proof (cases "case ys of y' # _ \<Rightarrow> y' = l | [] \<Rightarrow> False")
      case True
      then have sh: "shadowed l (y # ys)"
        using ne by (auto simp: shadowed_def split: list.splits)
      have "diff_spec i j (y # ys) (l # y # ys) =
          deleteEntry i (Some y) # diff_spec (i + 1) j ys (l # y # ys)"
        using ne True by (subst diff_spec.simps(4)) auto
      with sh show ?thesis by (simp add: oneOnly_other)
    next
      case False
      then have sh: "\<not> shadowed l (y # ys)"
        using ne by (auto simp: shadowed_def split: list.splits)
      have "diff_spec i j (y # ys) (l # y # ys) =
          insertEntry j (Some l) # diff_spec i (j + 1) (y # ys) (y # ys)"
        using ne False by (subst diff_spec.simps(4)) auto
      with sh diff_spec_same[of i "j + 1" "y # ys"] show ?thesis
        by (simp add: oneOnly_first del: diff_spec.simps)
    qed
  qed
qed

subsection \<open>Empty inputs\<close>

lemma onePairing_first:
  "dl_type e \<noteq> t \<Longrightarrow> dl_type e = Equal \<or> dl_type e = Replace \<Longrightarrow>
   (\<forall>d \<in> set ds. dl_type d = t) \<Longrightarrow> onePairing t (e # ds)"
  by (auto simp: onePairing_def filter_none)

lemma onePairing_Cons:
  "dl_type e = t \<Longrightarrow> onePairing t (e # ds) = onePairing t ds"
  by (auto simp: onePairing_def)

lemma diff_spec_single_left:
  "bs \<noteq> [] \<Longrightarrow> onePairing Insert (diff_spec i j [a] bs)"
proof (induction bs arbitrary: j)
  case Nil
  then show ?case by simp
next
  case (Cons b bs)
  show ?case
  proof (cases "a = b")
    case True
    with diff_spec_nil_left[of "i + 1" "j + 1" bs] show ?thesis
      by (simp add: onePairing_first)
  next
    case False
    note ne = False
    show ?thesis
    proof (cases "case bs of b' # _ \<Rightarrow> b' = a | [] \<Rightarrow> False")
      case True
      then have "bs \<noteq> []" by (auto split: list.splits)
      from Cons.IH[OF this, of "j + 1"] ne True show ?thesis
        by (simp add: onePairing_Cons)
    next
      case False
      with ne diff_spec_nil_left[of "i + 1" "j + 1" bs] show ?thesis
        by (simp add: onePairing_first)
    qed
  qed
qed

lemma diff_spec_single_right:
  "as \<noteq> [] \<Longrightarrow> onePairing Delete (diff_spec i j as [b])"
proof (induction as arbitrary: i)
  case Nil
  then show ?case by simp
next
  case (Cons a as)
  show ?case
  proof (cases "a = b")
    case True
    with diff_spec_nil_right[of "i + 1" "j + 1" as] show ?thesis
      by (simp add: onePairing_first)
  next
    case False
    note ne = False
    show ?thesis
    proof (cases "case as of a' # _ \<Rightarrow> a' = b | [] \<Rightarrow> False")
      case True
      then have "as \<noteq> []" by (auto split: list.splits)
      from Cons.IH[OF this, of "i + 1"] ne True show ?thesis
        by (simp add: onePairing_Cons)
    next
      case False
      with ne diff_spec_nil_right[of "i + 1" "j + 1" as] show ?thesis
        by (simp add: onePairing_first)
    qed
  qed
qed

lemma dl_content_entries [simp]:
  "dl_content (insertEntry j x) = x"
  "dl_content (deleteEntry i y) = y"
  "dl_content (equalEntry i j y) = y"
  "dl_content (replaceEntry i j y x) = x"
  by (simp_all add: insertEntry_def deleteEntry_def equalEntry_def replaceEntry_def)

lemma diff_spec_content: "\<forall>d \<in> set (diff_spec i j as bs). dl_content d \<noteq> None"
  by (induction i j as bs rule: diff_spec.induct) auto

lemma diff_spec_nonempty: "as \<noteq> [] \<Longrightarrow> diff_spec i j as bs \<noteq> []"
  by (cases as; cases bs) auto

subsection \<open>Claims about generateDiff\<close>

text \<open>
  Claim C1.  For every pair of strings, \<open>generateDiff\<close> splits both inputs on newline
  and walks the two cursors from 0 by the case order of the specification: the loop of the
  source, with its index cursors and its reads beyond the end of an array, computes
  exactly the walk \<open>diff_spec\<close>, whose six cases are: original exhausted, an insert per
  remaining modified line; modified exhausted, a delete per remaining original line; equal
  lines, an equal entry advancing both; next original line equal to the current modified
  line, a delete advancing \<open>i\<close> only; next modified line equal to the current original
  line, an insert advancing \<open>j\<close> only; otherwise a replace advancing both.
\<close>

theorem generateDiff_case_order:
  "generateDiff original modified =
     diff_spec 0 0 (splitLines original) (splitLines modified)"
  by (simp add: generateDiff_def diffLoop_diff_spec)

text \<open>
  Claim C4, as the code has it.  \<open>generateDiff\<close> is total and every entry it returns
  carries a defined content.  The empty string splits into one empty line, so the result
  is never empty: when the original is the empty string, exactly one entry pairs its empty
  line with a modified line (as \<open>equal\<close> or \<open>replace\<close>) and every other entry is an
  \<open>insert\<close>; when the modified text is the empty string, exactly one entry is such a
  pairing and every other entry is a \<open>delete\<close>.
\<close>

theorem generateDiff_empty_input:
  "(\<forall>d \<in> set (generateDiff original modified). dl_content d \<noteq> None) \<and>
   generateDiff original modified \<noteq> [] \<and>
   onePairing Insert (generateDiff [] modified) \<and>
   onePairing Delete (generateDiff original [])"
  by (simp add: generateDiff_def diffLoop_diff_spec diff_spec_content diff_spec_nonempty
      splitLines_nonempty diff_spec_single_left diff_spec_single_right)

theorem generateDiff_empty_input_witness:
  "list_all (\<lambda>d. dl_content d \<noteq> None) (generateDiff ''x'' (''x'' @ [newline] @ ''y'')) \<and>
   generateDiff ''x'' (''x'' @ [newline] @ ''y'') \<noteq> [] \<and>
   onePairing Insert (generateDiff [] (''x'' @ [newline] @ ''y'')) \<and>
   onePairing Delete (generateDiff ''x'' []) \<and>
   map dl_type (generateDiff [] (''x'' @ [newline] @ ''y'')) = [Replace, Insert] \<and>
   map dl_type (generateDiff ''x'' []) = [Replace]"
proof -
  have "map dl_type (generateDiff [] (''x'' @ [newline] @ ''y'')) = [Replace, Insert]"
    by code_simp
  moreover have "map dl_type (generateDiff ''x'' []) = [Replace]"
    by code_simp
  ultimately show ?thesis
    using generateDiff_empty_input[of "''x''" "''x'' @ [newline] @ ''y''"]
    by (simp add: list_all_iff)
qed

text \<open>
  Claim C4 as stated fails: an empty input gives neither zero entries nor only inserts or
  only deletes.  Two empty strings give one \<open>equal\<close> entry; an empty original against
  the text \<open>a\<close>, and the text \<open>a\<close> against an empty modified text, give one
  \<open>replace\<close> entry.
\<close>

theorem generateDiff_empty_counterexample:
  "map dl_type (generateDiff [] []) = [Equal] \<and>
   map dl_type (generateDiff [] ''a'') = [Replace] \<and>
   map dl_type (generateDiff ''a'' []) = [Replace]"
  by code_simp

subsection \<open>One inserted or deleted line\<close>

lemma diff_spec_one_deleted:
  "oneOnly Delete (diff_spec i j (xs @ l # ys) (xs @ ys))"
proof -
  obtain eqs where e: "\<forall>d \<in> set eqs. dl_type d = Equal"
    and s: "diff_spec i j (xs @ l # ys) (xs @ ys) =
      eqs @ diff_spec (i + length xs) (j + length xs) (l # ys) ys"
    using diff_spec_prefix[of i j xs "l # ys" ys] by blast
  show ?thesis
    unfolding s using e by (simp add: oneOnly_equals_append diff_spec_deleted)
qed

lemma diff_spec_one_inserted:
  "oneOnly Insert (diff_spec i j (xs @ ys) (xs @ l # ys)) \<longleftrightarrow> \<not> shadowed l ys"
proof -
  obtain eqs where e: "\<forall>d \<in> set eqs. dl_type d = Equal"
    and s: "diff_spec i j (xs @ ys) (xs @ l # ys) =
      eqs @ diff_spec (i + length xs) (j + length xs) ys (l # ys)"
    using diff_spec_prefix[of i j xs ys "l # ys"] by blast
  show ?thesis
    unfolding s using e by (simp add: oneOnly_equals_append diff_spec_inserted)
qed

text \<open>
  Claim C3, as the code has it.  When the original is the modified text with exactly one
  more line (one line deleted), \<open>generateDiff\<close> yields exactly one \<open>delete\<close> entry and
  every other entry is \<open>equal\<close>.  When the modified text is the original with one line
  \<open>l\<close> inserted in front of the remaining lines \<open>ys\<close>, it yields exactly one \<open>insert\<close>
  entry and otherwise \<open>equal\<close> entries if and only if \<open>l\<close> is not shadowed in \<open>ys\<close>:
  the look-ahead on the original side is tried first, and where the line after the next
  differing original line is \<open>l\<close> again it emits a \<open>delete\<close>.
\<close>

theorem generateDiff_single_line:
  "(splitLines original = xs @ l # ys \<and> splitLines modified = xs @ ys \<longrightarrow>
      oneOnly Delete (generateDiff original modified)) \<and>
   (splitLines original = xs @ ys \<and> splitLines modified = xs @ l # ys \<longrightarrow>
      (oneOnly Insert (generateDiff original modified) \<longleftrightarrow> \<not> shadowed l ys))"
  by (simp add: generateDiff_def diffLoop_diff_spec diff_spec_one_deleted
      diff_spec_one_inserted)

theorem generateDiff_single_line_witness:
  "oneOnly Delete
     (generateDiff (''a'' @ [newline] @ ''b'' @ [newline] @ ''c'') (''a'' @ [newline] @ ''c'')) \<and>
   oneOnly Insert
     (generateDiff (''a'' @ [newline] @ ''c'') (''a'' @ [newline] @ ''b'' @ [newline] @ ''c'')) \<and>
   map dl_type
     (generateDiff (''a'' @ [newline] @ ''c'') (''a'' @ [newline] @ ''b'' @ [newline] @ ''c'')) =
     [Equal, Insert, Equal]"
proof -
  have s2: "splitLines (''a'' @ [newline] @ ''c'') = [''a''] @ [''c'']"
    by code_simp
  have s3: "splitLines (''a'' @ [newline] @ ''b'' @ [newline] @ ''c'') = [''a''] @ ''b'' # [''c'']"
    by code_simp
  have ns: "\<not> shadowed ''b'' [''c'']"
    by code_simp
  have ev: "map dl_type
     (generateDiff (''a'' @ [newline] @ ''c'') (''a'' @ [newline] @ ''b'' @ [newline] @ ''c'')) =
     [Equal, Insert, Equal]"
    by code_simp
  from generateDiff_single_line
    [of "''a'' @ [newline] @ ''b'' @ [newline] @ ''c''" "[''a'']" "''b''" "[''c'']"
        "''a'' @ [newline] @ ''c''"]
    generateDiff_single_line
    [of "''a'' @ [newline] @ ''c''" "[''a'']" "''b''" "[''c'']"
        "''a'' @ [newline] @ ''b'' @ [newline] @ ''c''"]
    s2 s3 ns ev
  show ?thesis by blast
qed

text \<open>
  Claim C3 as stated fails for an inserted line: the text \<open>b, a, b\<close> is the text
  \<open>a, b\<close> with the line \<open>b\<close> inserted in front, and the diff is a delete, an equal and
  two inserts.
\<close>

theorem generateDiff_single_insert_counterexample:
  "splitLines (''a'' @ [newline] @ ''b'') = [] @ [''a'', ''b''] \<and>
   splitLines (''b'' @ [newline] @ ''a'' @ [newline] @ ''b'') = [] @ ''b'' # [''a'', ''b''] \<and>
   map dl_type
     (generateDiff (''a'' @ [newline] @ ''b'') (''b'' @ [newline] @ ''a'' @ [newline] @ ''b'')) =
     [Delete, Equal, Insert, Insert]"
  by code_simp

subsection \<open>diffToChanges\<close>

lemma diffToChangesLoop_spec:
  "map (\<lambda>c. (ch_type c, lineNumber c)) (diffToChangesLoop ds n acc) =
     map (\<lambda>c. (ch_type c, lineNumber c)) acc @ toChanges_spec ds"
  by (induction ds arbitrary: n acc)
     (auto simp: changeOfEntry_def split: DiffType.splits)

lemma diffToChangesLoop_status:
  "map ch_status (diffToChangesLoop ds n acc) =
     map ch_status acc @ replicate (length (toChanges_spec ds)) Pending"
  by (induction ds arbitrary: n acc)
     (auto simp: changeOfEntry_def replicate_append_same split: DiffType.splits)

lemma diffToChanges_pending: "\<forall>c \<in> set (diffToChanges ds). ch_status c = Pending"
proof -
  have "set (map ch_status (diffToChanges ds)) \<subseteq> {Pending}"
    unfolding diffToChanges_def diffToChangesLoop_status by auto
  then show ?thesis by auto
qed

subsection \<open>applyChanges\<close>

lemma fold_unchanged: "(\<forall>c \<in> set cs. \<forall>x. f c x = x) \<Longrightarrow> fold f cs x = x"
  by (induction cs) auto

lemma applyChanges_unaltered:
  assumes "\<forall>c \<in> set cs. \<not> alters c"
  shows "applyChanges content cs = content"
proof -
  have a: "\<forall>c \<in> set (filter (\<lambda>change. ch_status change = Accepted) cs).
      \<forall>x. applyAccepted c x = x"
    using assms by (auto simp: alters_def applyAccepted_def)
  have r: "\<forall>c \<in> set (filter (\<lambda>change. ch_status change = Rejected) cs).
      \<forall>x. applyRejected c x = x"
    using assms by (auto simp: alters_def applyRejected_def split: option.splits)
  show ?thesis
    by (simp add: applyChanges_def fold_unchanged[OF a] fold_unchanged[OF r]
        joinLines_splitLines)
qed

text \<open>
  Claim C10.  When every change is pending, \<open>applyChanges\<close> returns the content
  unchanged; more generally the content is unchanged unless some change is an accepted
  deletion or a rejected addition or modification.
\<close>

theorem applyChanges_pending:
  "((\<forall>c \<in> set cs. ch_status c = Pending) \<longrightarrow> applyChanges content cs = content) \<and>
   ((\<forall>c \<in> set cs. \<not> alters c) \<longrightarrow> applyChanges content cs = content)"
proof -
  have "\<forall>c \<in> set cs. \<not> alters c" if "\<forall>c \<in> set cs. ch_status c = Pending"
    using that by (auto simp: alters_def)
  then show ?thesis by (auto simp: applyChanges_unaltered)
qed


theorem applyChanges_pending_witness:
  "applyChanges (''a'' @ [newline] @ ''b'')
     [\<lparr>ch_id = ''1'', ch_type = Deletion, lineNumber = 1, ch_content = Some ''a'',
       ch_originalContent = None, ch_status = Pending\<rparr>] = ''a'' @ [newline] @ ''b'' \<and>
   applyChanges (''a'' @ [newline] @ ''b'')
     [\<lparr>ch_id = ''1'', ch_type = Deletion, lineNumber = 1, ch_content = Some ''a'',
       ch_originalContent = None, ch_status = Accepted\<rparr>] = ''b''"
proof -
  have "applyChanges (''a'' @ [newline] @ ''b'')
     [\<lparr>ch_id = ''1'', ch_type = Deletion, lineNumber = 1, ch_content = Some ''a'',
       ch_originalContent = None, ch_status = Accepted\<rparr>] = ''b''"
    by code_simp
  then show ?thesis
    using applyChanges_pending
      [of "[\<lparr>ch_id = ''1'', ch_type = Deletion, lineNumber = 1, ch_content = Some ''a'',
             ch_originalContent = None, ch_status = Pending\<rparr>]"
          "''a'' @ [newline] @ ''b''"]
    by simp
qed

subsection \<open>Stored change snapshots\<close>

lemma pendingSnapshot_status:
  "map ch_status (pendingSnapshot random cs) = replicate (length cs) Pending"
  by (simp add: pendingSnapshot_def case_prod_beta comp_def map_replicate_const)

lemma aiEdit_stores_pending:
  assumes "aiEdit dev line random now storage idParam body =
    (Response 200 (AiEditJson revision summary cs), storage1)"
  shows "rev_id revision = currentRevisionId storage \<and>
    revisions storage1 (rev_id revision) = Some revision \<and>
    map ch_status (storedRevisionChanges storage1 (rev_id revision)) =
      replicate (length cs) Pending"
  using assms
  by (auto simp: aiEdit_def createRevision_def Let_def storedRevisionChanges_def
      pendingSnapshot_status
      split: option.splits if_splits sum.splits prod.splits)


subsection \<open>Document ids\<close>

lemma jsIncrement_exact: "- (2 ^ 53) \<le> n \<Longrightarrow> n < 2 ^ 53 \<Longrightarrow> jsIncrement n = n + 1"
  by (simp add: jsIncrement_def)

lemma jsIncrement_at_limit: "jsIncrement (2 ^ 53) = 2 ^ 53"
  by (simp add: jsIncrement_def)

lemma call_counter:
  "currentDocumentId (snd (call now c this)) =
     (if isCreateDocument (now, c) then jsIncrement (currentDocumentId this)
      else currentDocumentId this)"
  by (cases c)
     (auto simp: createDocument_def updateDocument_def deleteDocument_def createRevision_def
       updateRevision_def createChange_def updateChange_def updateChangeStatus_def Let_def
       split: option.splits)

lemma call_created:
  "createdDocumentIds (fst (call now c this) # rs) =
     (if isCreateDocument (now, c) then currentDocumentId this # createdDocumentIds rs
      else createdDocumentIds rs)"
  by (cases c) (auto simp: createDocument_def Let_def)

lemma run_createdDocumentIds:
  "- (2 ^ 53) \<le> currentDocumentId this \<Longrightarrow>
   currentDocumentId this + int (length (filter isCreateDocument cs)) \<le> 2 ^ 53 \<Longrightarrow>
   createdDocumentIds (fst (run cs this)) =
     map (\<lambda>k. currentDocumentId this + int k) [0..<length (filter isCreateDocument cs)]"
proof (induction cs arbitrary: this)
  case Nil
  show ?case by simp
next
  case (Cons nc cs)
  obtain now c where nc: "nc = (now, c)" by (cases nc)
  obtain r this1 where c1: "call now c this = (r, this1)" by (cases "call now c this")
  obtain rs this2 where r2: "run cs this1 = (rs, this2)" by (cases "run cs this1")
  have ids: "createdDocumentIds (r # rs) =
     (if isCreateDocument (now, c) then currentDocumentId this # createdDocumentIds rs
      else createdDocumentIds rs)"
    using call_created[of now c this rs] c1 by simp
  show ?case
  proof (cases "isCreateDocument (now, c)")
    case True
    have lt: "currentDocumentId this < 2 ^ 53"
      using Cons.prems(2) True nc by simp
    have cnt: "currentDocumentId this1 = currentDocumentId this + 1"
      using call_counter[of now c this] c1 True jsIncrement_exact[OF Cons.prems(1) lt]
      by simp
    have lo: "- (2 ^ 53) \<le> currentDocumentId this1"
      using Cons.prems(1) cnt by simp
    have hi: "currentDocumentId this1 + int (length (filter isCreateDocument cs)) \<le> 2 ^ 53"
      using Cons.prems(2) True nc cnt by simp
    have ih: "createdDocumentIds rs =
        map (\<lambda>k. currentDocumentId this1 + int k) [0..<length (filter isCreateDocument cs)]"
      using Cons.IH[OF lo hi] r2 by simp
    have "map (\<lambda>k. currentDocumentId this + int k)
            [0..<Suc (length (filter isCreateDocument cs))] =
          currentDocumentId this #
            map (\<lambda>k. currentDocumentId this + 1 + int k)
              [0..<length (filter isCreateDocument cs)]"
      by (simp add: upt_conv_Cons map_Suc_upt[symmetric] del: upt_Suc)
    with True nc c1 r2 ids ih cnt show ?thesis by simp
  next
    case False
    have cnt: "currentDocumentId this1 = currentDocumentId this"
      using call_counter[of now c this] c1 False by simp
    have lo: "- (2 ^ 53) \<le> currentDocumentId this1"
      using Cons.prems(1) cnt by simp
    have hi: "currentDocumentId this1 + int (length (filter isCreateDocument cs)) \<le> 2 ^ 53"
      using Cons.prems(2) False nc cnt by simp
    have ih: "createdDocumentIds rs =
        map (\<lambda>k. currentDocumentId this1 + int k) [0..<length (filter isCreateDocument cs)]"
      using Cons.IH[OF lo hi] r2 by simp
    with False nc c1 r2 ids cnt show ?thesis by simp
  qed
qed

lemma increasing_ids:
  "sorted_wrt (<) (map (\<lambda>k. (c::int) + int k) [0..<n]) \<and>
   distinct (map (\<lambda>k. (c::int) + int k) [0..<n])"
  by (auto simp: sorted_wrt_map distinct_map inj_on_def sorted_wrt_iff_nth_less)

lemma deleteDocument_unknown:
  "documents this i = None \<Longrightarrow> deleteDocument this i = (False, this)"
  by (simp add: deleteDocument_def fun_upd_idem)


subsection \<open>Status updates\<close>

lemma updateChangeStatus_resolved:
  assumes "resolved this c" and "s = ''accepted'' \<or> s = ''rejected''"
  shows "resolved (snd (updateChangeStatus this i s)) c"
  using assms
  by (auto simp: resolved_def updateChangeStatus_def updateChange_def Let_def spread_def
      split: option.splits)

lemma patchChangeStatus_resolved:
  assumes "resolved this c"
  shows "resolved (snd (patchChangeStatus this i status)) c"
proof (cases status)
  case None
  with assms show ?thesis by (simp add: patchChangeStatus_def)
next
  case (Some s)
  show ?thesis
  proof (cases "s = ''accepted'' \<or> s = ''rejected''")
    case False
    with Some assms show ?thesis by (simp add: patchChangeStatus_def)
  next
    case True
    note ok = True
    show ?thesis
    proof (cases i)
      case None
      with Some ok assms show ?thesis by (auto simp: patchChangeStatus_def)
    next
      case (Some k)
      obtain r this1 where u: "updateChangeStatus this k s = (r, this1)"
        by (cases "updateChangeStatus this k s")
      have "resolved this1 c"
        using updateChangeStatus_resolved[OF assms ok, of k] u by simp
      with \<open>status = Some s\<close> Some ok u show ?thesis
        by (auto simp: patchChangeStatus_def split: option.splits)
    qed
  qed
qed

lemma patchAll_resolved:
  "resolved this c \<Longrightarrow> resolved (snd (patchAll reqs this)) c"
proof (induction reqs arbitrary: this)
  case Nil
  then show ?case by simp
next
  case (Cons rq reqs)
  obtain i s where rq: "rq = (i, s)" by (cases rq)
  have "resolved (snd (patchChangeStatus this i s)) c"
    using Cons.prems by (rule patchChangeStatus_resolved)
  from Cons.IH[OF this] rq show ?case
    by (simp add: split_def Let_def)
qed

lemma patchChangeStatus_invalid:
  "status \<noteq> Some ''accepted'' \<Longrightarrow> status \<noteq> Some ''rejected'' \<Longrightarrow>
   patchChangeStatus this i status = (Response 400 (Message ''Invalid status''), this)"
  by (auto simp: patchChangeStatus_def split: option.splits)

subsection \<open>Fence stripping and parsing\<close>

lemma dropWhile_append_stop:
  "\<not> P y \<Longrightarrow> dropWhile P (xs @ y # ys) = dropWhile P xs @ y # ys"
  by (induction xs) auto

lemma backtick_not_space: "\<not> js_space (CHR 0x60)"
  by (simp add: js_space_def)

lemma ticks_Cons: "ticks = CHR 0x60 # [CHR 0x60, CHR 0x60]"
  by (simp add: ticks_def numeral_3_eq_3)

lemma stripLead_fenced: "stripLead (fenceOpen @ rest) = dropWhile js_space rest"
  by (simp add: stripLead_def)

lemma fenceToEnd_ticks: "list_all js_space ws \<Longrightarrow> fenceToEnd (ticks @ ws)"
  by (simp add: fenceToEnd_def ticks_def)

lemma not_fenceToEnd_before:
  assumes "u \<noteq> []"
  shows "\<not> fenceToEnd (u @ ticks @ ws)"
proof
  assume f: "fenceToEnd (u @ ticks @ ws)"
  have "drop 3 (u @ ticks @ ws) = drop 3 u @ drop (3 - length u) ticks @ ws"
    by (simp add: ticks_def)
  moreover have "CHR 0x60 \<in> set (drop (3 - length u) ticks)"
    using assms by (cases u) (auto simp: ticks_def)
  ultimately have "CHR 0x60 \<in> set (drop 3 (u @ ticks @ ws))" by simp
  with f have "js_space (CHR 0x60)"
    by (auto simp: fenceToEnd_def list_all_iff)
  with backtick_not_space show False by simp
qed

lemma stripTrail_fence:
  "list_all js_space ws \<Longrightarrow> stripTrail (b @ ticks @ ws) = b"
proof (induction b)
  case Nil
  have "stripTrail (ticks @ ws) = []"
    using fenceToEnd_ticks[OF Nil] by (simp add: ticks_Cons)
  then show ?case by simp
next
  case (Cons c b)
  have "\<not> fenceToEnd ((c # b) @ ticks @ ws)"
    by (rule not_fenceToEnd_before) simp
  with Cons show ?case by simp
qed

lemma stripFence_fenced:
  assumes "list_all js_space ws"
  shows "stripFence (fenceOpen @ body @ ticks @ ws) = dropWhile js_space body"
proof -
  have "dropWhile js_space (body @ ticks @ ws) = dropWhile js_space body @ ticks @ ws"
    using dropWhile_append_stop[of js_space "CHR 0x60" body "[CHR 0x60, CHR 0x60] @ ws"]
    by (simp add: ticks_Cons backtick_not_space)
  then show ?thesis
    by (simp add: stripFence_def stripLead_fenced stripTrail_fence[OF assms])
qed

lemma parse_leading_space:
  assumes "\<forall>c s. json_ws c \<longrightarrow> P (c # s) = P s"
  shows "list_all json_ws (takeWhile js_space body) \<Longrightarrow> P (dropWhile js_space body) = P body"
  using assms by (induction body) auto

lemma fst_parseAIResponseJSON:
  "fst (parseAIResponseJSON env (Some t) w) =
     (case JSON_parse env (stripFence t) of
        Inr v \<Rightarrow> Inr v
      | Inl e \<Rightarrow> Inl (Error ''Failed to parse AI response as JSON''))"
  by (simp add: parseAIResponseJSON_def split: sum.splits)


subsection \<open>Vendor requests of getAIResponse\<close>

lemma vendorCalls_consoleWrite [simp]: "vendorCalls (consoleWrite ls w) = vendorCalls w"
  by (simp add: consoleWrite_def)

lemma parseAIResponseJSON_calls [simp]:
  "vendorCalls (snd (parseAIResponseJSON env t w)) = vendorCalls w"
  by (simp add: parseAIResponseJSON_def split: sum.splits option.splits)

lemma vendorThenParse_calls:
  "vendorCalls (snd (vendorThenParse env c pick w)) = vendorCalls w @ [c]"
  by (simp add: vendorThenParse_def callVendor_def split: sum.splits prod.splits)

lemma tryProvider_calls:
  "vendorCalls (snd (tryProvider env prompt provider t j w)) =
     vendorCalls w @
       (if provider = Azure then []
        else [\<lparr>vc_provider = provider, vc_prompt = prompt, vc_temperature = t,
                vc_useJsonFormat = j\<rparr>])"
  by (cases provider) (simp_all add: tryProvider_def vendorThenParse_calls)

lemma getAIResponse_Google:
  "getAIResponse env prompt Google t j w =
     (case tryProvider env prompt Google t j w of
        (Inr v, w1) \<Rightarrow> (Inr v, w1)
      | (Inl e, w1) \<Rightarrow>
          (Inl e, consoleWrite [ConsoleError ''Error with google provider:'' e] w1))"
  by (subst getAIResponse.simps) (simp split: prod.splits sum.splits)

lemma getAIResponse_Google_calls:
  "vendorCalls (snd (getAIResponse env prompt Google t j w)) =
     vendorCalls w @
       [\<lparr>vc_provider = Google, vc_prompt = prompt, vc_temperature = t, vc_useJsonFormat = j\<rparr>]"
  using tryProvider_calls[of env prompt Google t j w]
  by (auto simp: getAIResponse_Google split: prod.splits sum.splits)

lemma getAIResponse_retry:
  assumes "tryProvider env prompt provider t j w = (Inl e, w1)"
    and "provider \<noteq> Google" and "truthy (GOOGLE_AI_API_KEY env)"
  shows "getAIResponse env prompt provider t j w =
     getAIResponse env prompt Google t j
       (consoleWrite [ConsoleLog ''Falling back to Google AI...'']
          (consoleWrite
             [ConsoleError (''Error with '' @ providerName provider @ '' provider:'') e] w1))"
  using assms by (subst getAIResponse.simps) (simp add: Let_def)

lemma getAIResponse_no_retry:
  assumes "tryProvider env prompt provider t j w = (Inl e, w1)"
    and "provider = Google \<or> \<not> truthy (GOOGLE_AI_API_KEY env)"
  shows "getAIResponse env prompt provider t j w =
     (Inl e, consoleWrite
        [ConsoleError (''Error with '' @ providerName provider @ '' provider:'') e] w1)"
  using assms by (subst getAIResponse.simps) (auto simp: Let_def)

lemma getAIResponse_success:
  assumes "tryProvider env prompt provider t j w = (Inr v, w1)"
  shows "getAIResponse env prompt provider t j w = (Inr v, w1)"
  using assms by (subst getAIResponse.simps) simp


lemma fst_rethrow:
  "fst (case x of (Inr v, w) \<Rightarrow> (Inr v, w) | (Inl e, w) \<Rightarrow> (Inl e, f e w)) = fst x"
  by (auto split: prod.splits sum.splits)


subsection \<open>The consensus loop\<close>

lemma consensusLoop_survivors:
  "consensusLoop f content ps acc w =
     (acc @ fst (survivors f content ps w), snd (survivors f content ps w))"
  by (induction ps arbitrary: acc w) (auto split: prod.splits sum.splits)

lemma getAIResponse_enhanced_OpenAI_calls:
  "vendorCalls (snd (getAIResponse_enhanced env prompt OpenAI t j w)) =
     vendorCalls w @
       [\<lparr>vc_provider = OpenAI, vc_prompt = prompt, vc_temperature = t, vc_useJsonFormat = j\<rparr>]"
  by (simp add: getAIResponse_enhanced_def vendorThenParse_calls)

subsection \<open>Claims about the gateway\<close>

text \<open>
  Claim C5.  When the switch for the requested provider throws (the vendor SDK or the
  parsing), the provider is not Google and the Google key is set, the whole request
  (same prompt, temperature and JSON flag) is made once more, against Google, and what
  that one attempt gives, value or error, is what the caller receives.  When the failed
  provider is Google or no key is set, the error is thrown on; a success is returned as it
  is.  In every case at most two vendor requests are sent, and at most one of them to the
  requested provider.
\<close>

theorem getAIResponse_fallback:
  "(tryProvider env prompt provider t j w = (Inl e, w1) \<and> provider \<noteq> Google \<and>
    truthy (GOOGLE_AI_API_KEY env) \<longrightarrow>
      getAIResponse env prompt provider t j w =
        (case tryProvider env prompt Google t j
                (consoleWrite [ConsoleLog ''Falling back to Google AI...'']
                   (consoleWrite
                      [ConsoleError (''Error with '' @ providerName provider @ '' provider:'') e]
                      w1)) of
           (Inr v, w2) \<Rightarrow> (Inr v, w2)
         | (Inl e', w2) \<Rightarrow>
             (Inl e', consoleWrite [ConsoleError ''Error with google provider:'' e'] w2)) \<and>
      vendorCalls (snd (getAIResponse env prompt provider t j w)) =
        vendorCalls w @
        (if provider = Azure then []
         else [\<lparr>vc_provider = provider, vc_prompt = prompt, vc_temperature = t,
                 vc_useJsonFormat = j\<rparr>]) @
        [\<lparr>vc_provider = Google, vc_prompt = prompt, vc_temperature = t,
          vc_useJsonFormat = j\<rparr>]) \<and>
   (tryProvider env prompt provider t j w = (Inl e, w1) \<and>
    (provider = Google \<or> \<not> truthy (GOOGLE_AI_API_KEY env)) \<longrightarrow>
      getAIResponse env prompt provider t j w =
        (Inl e,
         consoleWrite
           [ConsoleError (''Error with '' @ providerName provider @ '' provider:'') e] w1)) \<and>
   (tryProvider env prompt provider t j w = (Inr v, w1) \<longrightarrow>
      getAIResponse env prompt provider t j w = (Inr v, w1)) \<and>
   length (vendorCalls (snd (getAIResponse env prompt provider t j w))) \<le>
     length (vendorCalls w) + 2 \<and>
   length (filter (\<lambda>c. vc_provider c = provider)
     (drop (length (vendorCalls w))
        (vendorCalls (snd (getAIResponse env prompt provider t j w))))) \<le> 1"
proof -
  let ?G = "getAIResponse env prompt provider t j w"
  let ?c = "\<lambda>p. \<lparr>vc_provider = p, vc_prompt = prompt, vc_temperature = t,
                 vc_useJsonFormat = j\<rparr>"
  have retry: "?G =
        (case tryProvider env prompt Google t j
                (consoleWrite [ConsoleLog ''Falling back to Google AI...'']
                   (consoleWrite
                      [ConsoleError (''Error with '' @ providerName provider @ '' provider:'') e]
                      w1)) of
           (Inr v, w2) \<Rightarrow> (Inr v, w2)
         | (Inl e', w2) \<Rightarrow>
             (Inl e', consoleWrite [ConsoleError ''Error with google provider:'' e'] w2))"
    and retry_calls: "vendorCalls (snd ?G) =
        vendorCalls w @ (if provider = Azure then [] else [?c provider]) @ [?c Google]"
    if a: "tryProvider env prompt provider t j w = (Inl e, w1)" "provider \<noteq> Google"
      "truthy (GOOGLE_AI_API_KEY env)" for e w1
  proof -
    show "?G =
        (case tryProvider env prompt Google t j
                (consoleWrite [ConsoleLog ''Falling back to Google AI...'']
                   (consoleWrite
                      [ConsoleError (''Error with '' @ providerName provider @ '' provider:'') e]
                      w1)) of
           (Inr v, w2) \<Rightarrow> (Inr v, w2)
         | (Inl e', w2) \<Rightarrow>
             (Inl e', consoleWrite [ConsoleError ''Error with google provider:'' e'] w2))"
      by (simp add: getAIResponse_retry[OF a] getAIResponse_Google)
    have "vendorCalls w1 = vendorCalls w @ (if provider = Azure then [] else [?c provider])"
      using tryProvider_calls[of env prompt provider t j w] a(1) by simp
    then show "vendorCalls (snd ?G) =
        vendorCalls w @ (if provider = Azure then [] else [?c provider]) @ [?c Google]"
      by (simp add: getAIResponse_retry[OF a] getAIResponse_Google_calls)
  qed
  have stop: "?G =
        (Inl e,
         consoleWrite
           [ConsoleError (''Error with '' @ providerName provider @ '' provider:'') e] w1)"
    if "tryProvider env prompt provider t j w = (Inl e, w1)"
      "provider = Google \<or> \<not> truthy (GOOGLE_AI_API_KEY env)" for e w1
    using that by (rule getAIResponse_no_retry)
  have ok: "?G = (Inr v, w1)"
    if "tryProvider env prompt provider t j w = (Inr v, w1)" for v w1
    using that by (rule getAIResponse_success)
  have calls: "\<exists>cs. vendorCalls (snd ?G) = vendorCalls w @ cs \<and> length cs \<le> 2 \<and>
      length (filter (\<lambda>c. vc_provider c = provider) cs) \<le> 1"
  proof -
    obtain r w1 where tp: "tryProvider env prompt provider t j w = (r, w1)"
      by (cases "tryProvider env prompt provider t j w")
    have c1: "vendorCalls w1 = vendorCalls w @ (if provider = Azure then [] else [?c provider])"
      using tryProvider_calls[of env prompt provider t j w] tp by simp
    show ?thesis
    proof (cases r)
      case (Inr v)
      with tp ok[of v w1] c1 show ?thesis by auto
    next
      case (Inl e)
      show ?thesis
      proof (cases "provider \<noteq> Google \<and> truthy (GOOGLE_AI_API_KEY env)")
        case True
        with retry_calls[of e w1] tp Inl show ?thesis by auto
      next
        case False
        with stop[of e w1] tp Inl c1 show ?thesis by auto
      qed
    qed
  qed
  then obtain cs where cs: "vendorCalls (snd ?G) = vendorCalls w @ cs" "length cs \<le> 2"
      "length (filter (\<lambda>c. vc_provider c = provider) cs) \<le> 1"
    by blast
  have "length (vendorCalls (snd ?G)) \<le> length (vendorCalls w) + 2"
    using cs by simp
  moreover have "length (filter (\<lambda>c. vc_provider c = provider)
     (drop (length (vendorCalls w)) (vendorCalls (snd ?G)))) \<le> 1"
    using cs by simp
  ultimately show ?thesis
    using retry retry_calls stop ok by blast
qed

theorem getAIResponse_fallback_witness:
  "fst (getAIResponse exampleEnv ''p'' OpenAI 0.3 True world0) = Inr () \<and>
   map vc_provider (vendorCalls (snd (getAIResponse exampleEnv ''p'' OpenAI 0.3 True world0))) =
     [OpenAI, Google]"
proof -
  have t1: "tryProvider exampleEnv ''p'' OpenAI 0.3 True world0 =
      (Inl (Error ''network''),
       \<lparr>vendorCalls =
          [\<lparr>vc_provider = OpenAI, vc_prompt = ''p'', vc_temperature = 0.3,
            vc_useJsonFormat = True\<rparr>],
        console = []\<rparr>)"
    by (simp add: tryProvider_def vendorThenParse_def callVendor_def exampleEnv_def
        onlyGoogleAnswers_def world0_def)
  have k: "truthy (GOOGLE_AI_API_KEY exampleEnv)"
    by (simp add: truthy_def exampleEnv_def)
  have ng: "OpenAI \<noteq> Google" by simp
  have sf: "stripFence ''{}'' = ''{}''"
    by code_simp
  have po: "emptyObjectParser ''{}'' = Inr ()"
    by code_simp
  have t2: "fst (tryProvider exampleEnv ''p'' Google 0.3 True w) = Inr ()" for w
    by (simp add: tryProvider_def vendorThenParse_def callVendor_def exampleEnv_def
        onlyGoogleAnswers_def parseAIResponseJSON_def sf po)
  from getAIResponse_fallback[of exampleEnv "''p''" OpenAI "0.3" True world0
      "Error ''network''" _ "()"] t1 k ng
  have g: "getAIResponse exampleEnv ''p'' OpenAI 0.3 True world0 =
        (case tryProvider exampleEnv ''p'' Google 0.3 True
                (consoleWrite [ConsoleLog ''Falling back to Google AI...'']
                   (consoleWrite
                      [ConsoleError (''Error with '' @ providerName OpenAI @ '' provider:'')
                         (Error ''network'')]
                      \<lparr>vendorCalls =
                          [\<lparr>vc_provider = OpenAI, vc_prompt = ''p'', vc_temperature = 0.3,
                            vc_useJsonFormat = True\<rparr>],
                        console = []\<rparr>)) of
           (Inr v, w2) \<Rightarrow> (Inr v, w2)
         | (Inl e', w2) \<Rightarrow>
             (Inl e', consoleWrite [ConsoleError ''Error with google provider:'' e'] w2))"
    and c: "vendorCalls (snd (getAIResponse exampleEnv ''p'' OpenAI 0.3 True world0)) =
        vendorCalls world0 @
        (if OpenAI = Azure then []
         else [\<lparr>vc_provider = OpenAI, vc_prompt = ''p'', vc_temperature = 0.3,
                 vc_useJsonFormat = True\<rparr>]) @
        [\<lparr>vc_provider = Google, vc_prompt = ''p'', vc_temperature = 0.3,
          vc_useJsonFormat = True\<rparr>]"
    by blast+
  have "fst (getAIResponse exampleEnv ''p'' OpenAI 0.3 True world0) = Inr ()"
    unfolding g by (simp add: fst_rethrow t2)
  moreover have "map vc_provider
      (vendorCalls (snd (getAIResponse exampleEnv ''p'' OpenAI 0.3 True world0))) =
     [OpenAI, Google]"
    unfolding c by (simp add: world0_def)
  ultimately show ?thesis by simp
qed

text \<open>
  Claim C6, as the code has it.  For a response that is the opening fence, a body, three
  backticks and trailing white space, the text given to \<open>JSON.parse\<close> is the body without
  its leading white space.  So when the body itself carries no fence, its leading white
  space is JSON white space and \<open>JSON.parse\<close> ignores leading JSON white space, the fenced
  and the unfenced response give the same result.  When the stripped text does not parse,
  an \<open>Error\<close> with the fixed message \<open>Failed to parse AI response as JSON\<close> is thrown;
  the raw response is written to the console and is not part of the error.  When it
  parses, the value is returned and nothing is written.
\<close>

theorem parseAIResponseJSON_fence:
  "(list_all js_space ws \<longrightarrow>
      stripFence (fenceOpen @ body @ ticks @ ws) = dropWhile js_space body) \<and>
   (list_all js_space ws \<and> stripFence body = body \<and>
    list_all json_ws (takeWhile js_space body) \<and>
    (\<forall>c s. json_ws c \<longrightarrow> JSON_parse env (c # s) = JSON_parse env s) \<longrightarrow>
      fst (parseAIResponseJSON env (Some (fenceOpen @ body @ ticks @ ws)) w) =
      fst (parseAIResponseJSON env (Some body) w)) \<and>
   (JSON_parse env (stripFence t) = Inl e \<longrightarrow>
      parseAIResponseJSON env (Some t) w =
        (Inl (Error ''Failed to parse AI response as JSON''),
         consoleWrite
           [ConsoleError ''AI response JSON parsing error:'' e,
            ConsoleErrorText ''Raw response:'' (Some t)] w)) \<and>
   (JSON_parse env (stripFence t) = Inr v \<longrightarrow> parseAIResponseJSON env (Some t) w = (Inr v, w))"
proof (intro conjI impI)
  assume "list_all js_space ws"
  then show "stripFence (fenceOpen @ body @ ticks @ ws) = dropWhile js_space body"
    by (rule stripFence_fenced)
next
  assume a: "list_all js_space ws \<and> stripFence body = body \<and>
    list_all json_ws (takeWhile js_space body) \<and>
    (\<forall>c s. json_ws c \<longrightarrow> JSON_parse env (c # s) = JSON_parse env s)"
  then have "JSON_parse env (dropWhile js_space body) = JSON_parse env body"
    using parse_leading_space[of "JSON_parse env" body] by blast
  with a show "fst (parseAIResponseJSON env (Some (fenceOpen @ body @ ticks @ ws)) w) =
      fst (parseAIResponseJSON env (Some body) w)"
    by (simp add: fst_parseAIResponseJSON stripFence_fenced)
next
  assume "JSON_parse env (stripFence t) = Inl e"
  then show "parseAIResponseJSON env (Some t) w =
        (Inl (Error ''Failed to parse AI response as JSON''),
         consoleWrite
           [ConsoleError ''AI response JSON parsing error:'' e,
            ConsoleErrorText ''Raw response:'' (Some t)] w)"
    by (simp add: parseAIResponseJSON_def)
next
  assume "JSON_parse env (stripFence t) = Inr v"
  then show "parseAIResponseJSON env (Some t) w = (Inr v, w)"
    by (simp add: parseAIResponseJSON_def)
qed

theorem parseAIResponseJSON_fence_witness:
  "stripFence (fenceOpen @ ([newline] @ ''{}'' @ [newline]) @ ticks @ [newline]) =
     ''{}'' @ [newline] \<and>
   fst (parseAIResponseJSON exampleEnv
          (Some (fenceOpen @ ([newline] @ ''{}'' @ [newline]) @ ticks @ [newline])) world0) =
   fst (parseAIResponseJSON exampleEnv (Some ([newline] @ ''{}'' @ [newline])) world0) \<and>
   fst (parseAIResponseJSON exampleEnv (Some ([newline] @ ''{}'' @ [newline])) world0) = Inr () \<and>
   parseAIResponseJSON exampleEnv (Some ''oops'') world0 =
     (Inl (Error ''Failed to parse AI response as JSON''),
      consoleWrite
        [ConsoleError ''AI response JSON parsing error:'' (Error ''SyntaxError''),
         ConsoleErrorText ''Raw response:'' (Some ''oops'')] world0) \<and>
   parseAIResponseJSON exampleEnv (Some ''{}'') world0 = (Inr (), world0)"
proof -
  let ?body = "[newline] @ ''{}'' @ [newline]"
  have ws: "list_all js_space [newline]" by code_simp
  have nb: "stripFence ?body = ?body" by code_simp
  have lead: "list_all json_ws (takeWhile js_space ?body)" by code_simp
  have ign: "\<forall>c s. json_ws c \<longrightarrow> JSON_parse exampleEnv (c # s) = JSON_parse exampleEnv s"
    by (simp add: exampleEnv_def emptyObjectParser_def)
  have dw: "dropWhile js_space ?body = ''{}'' @ [newline]" by code_simp
  have bad: "JSON_parse exampleEnv (stripFence ''oops'') = Inl (Error ''SyntaxError'')"
    unfolding exampleEnv_def by code_simp
  have good: "JSON_parse exampleEnv (stripFence ''{}'') = Inr ()"
    unfolding exampleEnv_def by code_simp
  have good2: "JSON_parse exampleEnv (stripFence ?body) = Inr ()"
    unfolding exampleEnv_def by code_simp
  note inst1 = parseAIResponseJSON_fence
    [of "[newline]" ?body exampleEnv world0 "''oops''" "Error ''SyntaxError''" "()"]
  note inst2 = parseAIResponseJSON_fence
    [of "[newline]" ?body exampleEnv world0 "''{}''" "Error ''SyntaxError''" "()"]
  note inst3 = parseAIResponseJSON_fence
    [of "[newline]" ?body exampleEnv world0 ?body "Error ''SyntaxError''" "()"]
  from inst1 ws have "stripFence (fenceOpen @ ?body @ ticks @ [newline]) = dropWhile js_space ?body"
    by blast
  with dw have a: "stripFence (fenceOpen @ ?body @ ticks @ [newline]) = ''{}'' @ [newline]"
    by simp
  from inst1 ws nb lead ign
  have b: "fst (parseAIResponseJSON exampleEnv (Some (fenceOpen @ ?body @ ticks @ [newline])) world0) =
      fst (parseAIResponseJSON exampleEnv (Some ?body) world0)"
    by blast
  from inst3 good2 have c: "fst (parseAIResponseJSON exampleEnv (Some ?body) world0) = Inr ()"
    by simp
  from inst1 bad have d: "parseAIResponseJSON exampleEnv (Some ''oops'') world0 =
     (Inl (Error ''Failed to parse AI response as JSON''),
      consoleWrite
        [ConsoleError ''AI response JSON parsing error:'' (Error ''SyntaxError''),
         ConsoleErrorText ''Raw response:'' (Some ''oops'')] world0)"
    by blast
  from inst2 good have e: "parseAIResponseJSON exampleEnv (Some ''{}'') world0 = (Inr (), world0)"
    by blast
  from a b c d e show ?thesis by blast
qed

text \<open>
  Claim C6 as stated fails.  The error thrown for the raw text \<open>oops\<close> and the one thrown
  for \<open>nope\<close> are the same \<open>Error\<close> with the fixed message: it carries no raw text.
  And a fenced body that starts with a form feed parses, because the white space after the
  opening fence is stripped with it, while the same body without fence does not.
\<close>

theorem parseAIResponseJSON_counterexample:
  "fst (parseAIResponseJSON exampleEnv (Some ''oops'') world0) =
     Inl (Error ''Failed to parse AI response as JSON'') \<and>
   fst (parseAIResponseJSON exampleEnv (Some ''nope'') world0) =
     Inl (Error ''Failed to parse AI response as JSON'') \<and>
   fst (parseAIResponseJSON exampleEnv
          (Some (fenceOpen @ [CHR 0x0C] @ ''{}'' @ ticks)) world0) = Inr () \<and>
   fst (parseAIResponseJSON exampleEnv (Some ([CHR 0x0C] @ ''{}'')) world0) =
     Inl (Error ''Failed to parse AI response as JSON'')"
  unfolding exampleEnv_def by code_simp

subsection \<open>Claims about the services\<close>

text \<open>
  Claim C7, as the code has it.  \<open>multiProviderConsensus\<close> tries the listed providers one
  at a time (by default OpenAI, Google, Anthropic), skipping each one that fails.  With no
  surviving analysis it throws the error \<open>All AI providers failed to complete analysis\<close>;
  with exactly one it returns that analysis and sends nothing more; with two or more it
  sends exactly one more request, to OpenAI at temperature 0.2, whose prompt holds the
  surviving analyses, and returns what that request gives: its value, or its error.
\<close>

theorem multiProviderConsensus_cases:
  "(survivors analysisFunction content ps w = (an, w1) \<longrightarrow>
      (an = [] \<longrightarrow>
         multiProviderConsensus env content analysisType analysisFunction (Some ps) w =
           (Inl (Error ''All AI providers failed to complete analysis''), w1)) \<and>
      (an = [(p, a)] \<longrightarrow>
         multiProviderConsensus env content analysisType analysisFunction (Some ps) w =
           (Inr a, w1)) \<and>
      (2 \<le> length an \<longrightarrow>
         multiProviderConsensus env content analysisType analysisFunction (Some ps) w =
           getAIResponse_enhanced env
             (consensusPrompt analysisType content (JSON_stringify env an)) OpenAI 0.2 True w1 \<and>
         vendorCalls
           (snd (multiProviderConsensus env content analysisType analysisFunction (Some ps) w)) =
           vendorCalls w1 @
           [\<lparr>vc_provider = OpenAI,
             vc_prompt = consensusPrompt analysisType content (JSON_stringify env an),
             vc_temperature = 0.2, vc_useJsonFormat = True\<rparr>])) \<and>
   multiProviderConsensus env content analysisType analysisFunction None w =
     multiProviderConsensus env content analysisType analysisFunction
       (Some [OpenAI, Google, Anthropic]) w"
proof -
  have loop: "consensusLoop analysisFunction content ps [] w = (an, w1)"
    if "survivors analysisFunction content ps w = (an, w1)"
    using that by (simp add: consensusLoop_survivors)
  have two: "multiProviderConsensus env content analysisType analysisFunction (Some ps) w =
           getAIResponse_enhanced env
             (consensusPrompt analysisType content (JSON_stringify env an)) OpenAI 0.2 True w1"
    if "survivors analysisFunction content ps w = (an, w1)" "2 \<le> length an"
    using loop[OF that(1)] that(2) by (auto simp: multiProviderConsensus_def)
  show ?thesis
    using loop two
    by (auto simp: multiProviderConsensus_def defaultConsensusProviders_def
        getAIResponse_enhanced_OpenAI_calls)
qed

theorem multiProviderConsensus_cases_witness:
  "multiProviderConsensus answeringEnv ''c'' ''themes'' alwaysFails (Some [Google, Cohere]) world0 =
     (Inl (Error ''All AI providers failed to complete analysis''),
      consoleWrite [ConsoleError ''cohere analysis failed:'' (Error ''down'')]
        (consoleWrite [ConsoleError ''google analysis failed:'' (Error ''down'')] world0)) \<and>
   multiProviderConsensus answeringEnv ''c'' ''themes'' googleDown (Some [Google, Cohere]) world0 =
     (Inr (), consoleWrite [ConsoleError ''google analysis failed:'' (Error ''down'')] world0) \<and>
   multiProviderConsensus answeringEnv ''c'' ''themes'' googleDown
       (Some [OpenAI, Google, Anthropic]) world0 =
     getAIResponse_enhanced answeringEnv
       (consensusPrompt ''themes'' ''c''
          (JSON_stringify answeringEnv [(OpenAI, ()), (Anthropic, ())]))
       OpenAI 0.2 True
       (consoleWrite [ConsoleError ''google analysis failed:'' (Error ''down'')] world0) \<and>
   fst (multiProviderConsensus answeringEnv ''c'' ''themes'' googleDown None world0) = Inr () \<and>
   map vc_provider
     (vendorCalls
        (snd (multiProviderConsensus answeringEnv ''c'' ''themes'' googleDown
           (Some [OpenAI, Google, Anthropic]) world0))) = [OpenAI]"
proof -
  let ?w1 = "consoleWrite [ConsoleError ''google analysis failed:'' (Error ''down'')] world0"
  let ?w2 = "consoleWrite [ConsoleError ''cohere analysis failed:'' (Error ''down'')] ?w1"
  have s0: "survivors alwaysFails ''c'' [Google, Cohere] world0 = ([], ?w2)"
    by (simp add: alwaysFails_def)
  have s1: "survivors googleDown ''c'' [Google, Cohere] world0 = ([(Cohere, ())], ?w1)"
    by (simp add: googleDown_def)
  have s2: "survivors googleDown ''c'' [OpenAI, Google, Anthropic] world0 =
      ([(OpenAI, ()), (Anthropic, ())], ?w1)"
    by (simp add: googleDown_def)
  have l2: "2 \<le> length [(OpenAI, ()), (Anthropic, ())]" by simp
  note i0 = multiProviderConsensus_cases
    [of alwaysFails "''c''" "[Google, Cohere]" world0 "[]" ?w2 answeringEnv "''themes''"]
  note i1 = multiProviderConsensus_cases
    [of googleDown "''c''" "[Google, Cohere]" world0 "[(Cohere, ())]" ?w1 answeringEnv
        "''themes''" Cohere "()"]
  note i2 = multiProviderConsensus_cases
    [of googleDown "''c''" "[OpenAI, Google, Anthropic]" world0
        "[(OpenAI, ()), (Anthropic, ())]" ?w1 answeringEnv "''themes''"]
  from i0 s0 have a: "multiProviderConsensus answeringEnv ''c'' ''themes'' alwaysFails
      (Some [Google, Cohere]) world0 =
     (Inl (Error ''All AI providers failed to complete analysis''), ?w2)"
    by blast
  from i1 s1 have b: "multiProviderConsensus answeringEnv ''c'' ''themes'' googleDown
      (Some [Google, Cohere]) world0 = (Inr (), ?w1)"
    by blast
  from i2 s2 l2 have c: "multiProviderConsensus answeringEnv ''c'' ''themes'' googleDown
       (Some [OpenAI, Google, Anthropic]) world0 =
     getAIResponse_enhanced answeringEnv
       (consensusPrompt ''themes'' ''c''
          (JSON_stringify answeringEnv [(OpenAI, ()), (Anthropic, ())]))
       OpenAI 0.2 True ?w1"
    and cc: "vendorCalls
        (snd (multiProviderConsensus answeringEnv ''c'' ''themes'' googleDown
           (Some [OpenAI, Google, Anthropic]) world0)) =
        vendorCalls ?w1 @
           [\<lparr>vc_provider = OpenAI,
             vc_prompt = consensusPrompt ''themes'' ''c''
               (JSON_stringify answeringEnv [(OpenAI, ()), (Anthropic, ())]),
             vc_temperature = 0.2, vc_useJsonFormat = True\<rparr>]"
    by blast+
  from i2 have dflt: "multiProviderConsensus answeringEnv ''c'' ''themes'' googleDown None world0 =
      multiProviderConsensus answeringEnv ''c'' ''themes'' googleDown
        (Some [OpenAI, Google, Anthropic]) world0"
    by blast
  have sf: "stripFence ''{}'' = ''{}''" by code_simp
  have po: "emptyObjectParser ''{}'' = Inr ()" by code_simp
  have syn: "fst (getAIResponse_enhanced answeringEnv q OpenAI 0.2 True w) = Inr ()" for q w
    by (simp add: getAIResponse_enhanced_def vendorThenParse_def callVendor_def
        answeringEnv_def exampleEnv_def everyVendorAnswers_def parseAIResponseJSON_def
        orEmptyObject_def sf po)
  have d: "fst (multiProviderConsensus answeringEnv ''c'' ''themes'' googleDown None world0) =
      Inr ()"
    unfolding dflt c by (rule syn)
  have e: "map vc_provider
     (vendorCalls
        (snd (multiProviderConsensus answeringEnv ''c'' ''themes'' googleDown
           (Some [OpenAI, Google, Anthropic]) world0))) = [OpenAI]"
    unfolding cc by (simp add: world0_def)
  from a b c d e show ?thesis by blast
qed

text \<open>
  Claim C7 as stated fails: the call does not succeed whenever at least one provider
  succeeds.  Here two providers succeed and the synthesis request to OpenAI fails; the
  call fails with the error of that request.
\<close>

theorem multiProviderConsensus_counterexample:
  "fst (survivors alwaysSucceeds ''c'' [Google, Anthropic] world0) =
     [(Google, ()), (Anthropic, ())] \<and>
   fst (multiProviderConsensus exampleEnv ''c'' ''themes'' alwaysSucceeds
          (Some [Google, Anthropic]) world0) = Inl (Error ''network'')"
  by (simp add: alwaysSucceeds_def multiProviderConsensus_def getAIResponse_enhanced_def
      vendorThenParse_def callVendor_def exampleEnv_def onlyGoogleAnswers_def)

subsection \<open>Claims about change records\<close>

text \<open>
  Claim C2.  \<open>diffToChanges\<close> emits no change for an \<open>equal\<close> entry and maps an \<open>insert\<close>
  to an addition at the modified index plus one, a \<open>delete\<close> to a deletion at the original
  index plus one and a \<open>replace\<close> to a modification at the modified index plus one; every
  change it emits is pending.  When the ai-edit handler answers with a new revision, that
  revision is in the store under the next revision id and holds one change per proposed
  change, each with status pending.
\<close>

theorem diffToChanges_mapping:
  "map (\<lambda>c. (ch_type c, lineNumber c)) (diffToChanges ds) = toChanges_spec ds \<and>
   (\<forall>c \<in> set (diffToChanges ds). ch_status c = Pending) \<and>
   (aiEdit performDevelopmentalEdit performLineEdit random now storage idParam body =
      (Response 200 (AiEditJson revision summary cs), storage1) \<longrightarrow>
    rev_id revision = currentRevisionId storage \<and>
    revisions storage1 (rev_id revision) = Some revision \<and>
    map ch_status (storedRevisionChanges storage1 (rev_id revision)) =
      replicate (length cs) Pending)"
proof -
  have "map (\<lambda>c. (ch_type c, lineNumber c)) (diffToChanges ds) = toChanges_spec ds"
    by (simp add: diffToChanges_def diffToChangesLoop_spec)
  then show ?thesis
    using diffToChanges_pending[of ds] aiEdit_stores_pending by blast
qed

theorem diffToChanges_mapping_witness:
  "map (\<lambda>c. (ch_type c, lineNumber c))
     (diffToChanges
        [equalEntry 0 0 (Some ''a''), insertEntry 1 (Some ''b''),
         deleteEntry 1 (Some ''c''), replaceEntry 2 2 (Some ''d'') (Some ''e'')]) =
     [(Addition, 2), (Deletion, 2), (Modification, 3)] \<and>
   list_all (\<lambda>c. ch_status c = Pending)
     (diffToChanges
        [equalEntry 0 0 (Some ''a''), insertEntry 1 (Some ''b''),
         deleteEntry 1 (Some ''c''), replaceEntry 2 2 (Some ''d'') (Some ''e'')]) \<and>
   map ch_status
     (storedRevisionChanges
        (snd (aiEdit exampleEditService exampleEditService (\<lambda>k. ''r'') 5 oneDocument (Some 1)
           exampleBody)) 1) = [Pending]"
proof -
  let ?ds = "[equalEntry 0 0 (Some ''a''), insertEntry 1 (Some ''b''),
         deleteEntry 1 (Some ''c''), replaceEntry 2 2 (Some ''d'') (Some ''e'')]"
  let ?cs = "[\<lparr>ch_id = ''c1'', ch_type = Modification, lineNumber = 2,
              ch_content = Some ''lineX'', ch_originalContent = Some ''line2'',
              ch_status = Accepted\<rparr>]"
  let ?rev = "\<lparr>rev_id = 1, rev_documentId = 1,
       rev_content = ''line1'' @ [newline] @ ''lineX'' @ [newline] @ ''line3'',
       rev_changes = Some (pendingSnapshot (\<lambda>k. ''r'') ?cs),
       rev_isAccepted = Some False, rev_createdAt = 5\<rparr>"
  let ?run = "aiEdit exampleEditService exampleEditService (\<lambda>k. ''r'') 5 oneDocument (Some 1)
           exampleBody"
  have sp: "toChanges_spec ?ds = [(Addition, 2), (Deletion, 2), (Modification, 3)]"
    by code_simp
  have r: "fst ?run = Response 200 (AiEditJson ?rev ''one line changed'' ?cs)"
    by (simp add: aiEdit_def exampleBody_def oneDocument_def createDocument_def
        newMemStorage_def getDocument_def exampleEditService_def createRevision_def Let_def)
  then have run: "?run = (Response 200 (AiEditJson ?rev ''one line changed'' ?cs), snd ?run)"
    by (metis prod.collapse)
  note inst = diffToChanges_mapping
    [of ?ds exampleEditService exampleEditService "\<lambda>k. ''r''" 5 oneDocument "Some 1"
        exampleBody ?rev "''one line changed''" ?cs "snd ?run"]
  from inst sp have a: "map (\<lambda>c. (ch_type c, lineNumber c)) (diffToChanges ?ds) =
      [(Addition, 2), (Deletion, 2), (Modification, 3)]"
    by simp
  from inst have b: "list_all (\<lambda>c. ch_status c = Pending) (diffToChanges ?ds)"
    by (simp add: list_all_iff)
  from inst run have "map ch_status (storedRevisionChanges (snd ?run) (rev_id ?rev)) =
      replicate (length ?cs) Pending"
    by blast
  then have c: "map ch_status (storedRevisionChanges (snd ?run) 1) = [Pending]"
    by simp
  from a b c show ?thesis by blast
qed

subsection \<open>Claims about the store\<close>

text \<open>
  Claim C9.  The counter of a store is a double, which counts exactly up to \<open>2^53\<close>.
  Within that range: in a run of store calls on a new \<open>MemStorage\<close>, whatever other calls
  (deletions among them) come in between, the \<open>createDocument\<close> calls return the ids
  1, 2, 3, ... in order; from any store the ids returned are the successive integers from
  its counter on, strictly increasing and distinct.  \<open>deleteDocument\<close> on an id the store
  does not hold returns false and leaves the store as it is.
\<close>

theorem createDocument_ids:
  "(1 + int (length (filter isCreateDocument cs)) \<le> 2 ^ 53 \<longrightarrow>
      createdDocumentIds (fst (run cs newMemStorage)) =
        map (\<lambda>k. 1 + int k) [0..<length (filter isCreateDocument cs)]) \<and>
   (- (2 ^ 53) \<le> currentDocumentId this \<and>
    currentDocumentId this + int (length (filter isCreateDocument cs)) \<le> 2 ^ 53 \<longrightarrow>
      createdDocumentIds (fst (run cs this)) =
        map (\<lambda>k. currentDocumentId this + int k) [0..<length (filter isCreateDocument cs)] \<and>
      sorted_wrt (<) (createdDocumentIds (fst (run cs this))) \<and>
      distinct (createdDocumentIds (fst (run cs this)))) \<and>
   (documents this i = None \<longrightarrow> deleteDocument this i = (False, this))"
proof -
  have new: "currentDocumentId newMemStorage = 1"
    by (simp add: newMemStorage_def)
  have a: "createdDocumentIds (fst (run cs newMemStorage)) =
        map (\<lambda>k. 1 + int k) [0..<length (filter isCreateDocument cs)]"
    if "1 + int (length (filter isCreateDocument cs)) \<le> 2 ^ 53"
    using run_createdDocumentIds[of newMemStorage cs] that new by simp
  have b: "createdDocumentIds (fst (run cs this)) =
        map (\<lambda>k. currentDocumentId this + int k) [0..<length (filter isCreateDocument cs)]"
    if "- (2 ^ 53) \<le> currentDocumentId this"
      "currentDocumentId this + int (length (filter isCreateDocument cs)) \<le> 2 ^ 53"
    using that by (rule run_createdDocumentIds)
  show ?thesis
    using a b increasing_ids[of "currentDocumentId this" "length (filter isCreateDocument cs)"]
      deleteDocument_unknown[of this i]
    by simp
qed

theorem createDocument_ids_witness:
  "createdDocumentIds
     (fst (run [(0, CreateDocument (exampleInsert ''a'')), (1, DeleteDocument 1),
                (2, CreateDocument (exampleInsert ''b'')), (3, DeleteDocument 2),
                (4, CreateDocument (exampleInsert ''c''))] newMemStorage)) = [1, 2, 3] \<and>
   createdDocumentIds
     (fst (run [(0, CreateDocument (exampleInsert ''a'')), (1, DeleteDocument 1),
                (2, CreateDocument (exampleInsert ''b'')), (3, DeleteDocument 2),
                (4, CreateDocument (exampleInsert ''c''))] oneDocument)) = [2, 3, 4] \<and>
   distinct
     (createdDocumentIds
        (fst (run [(0, CreateDocument (exampleInsert ''a'')), (1, DeleteDocument 1),
                   (2, CreateDocument (exampleInsert ''b'')), (3, DeleteDocument 2),
                   (4, CreateDocument (exampleInsert ''c''))] oneDocument))) \<and>
   deleteDocument oneDocument 7 = (False, oneDocument)"
proof -
  let ?cs = "[(0, CreateDocument (exampleInsert ''a'')), (1, DeleteDocument 1),
                (2, CreateDocument (exampleInsert ''b'')), (3, DeleteDocument 2),
                (4::nat, CreateDocument (exampleInsert ''c''))]"
  have n: "length (filter isCreateDocument ?cs) = 3"
    by simp
  have m1: "map (\<lambda>k. 1 + int k) [0..<3] = [1, 2, 3]"
    by code_simp
  have m2: "map (\<lambda>k. 2 + int k) [0..<3] = [2, 3, 4]"
    by code_simp
  have c: "currentDocumentId oneDocument = 2"
    by (simp add: oneDocument_def createDocument_def newMemStorage_def Let_def
        jsIncrement_def)
  have u: "documents oneDocument 7 = None"
    by (simp add: oneDocument_def createDocument_def newMemStorage_def Let_def)
  have h1: "1 + int (length (filter isCreateDocument ?cs)) \<le> 2 ^ 53"
    unfolding n by simp
  have h2: "- (2 ^ 53) \<le> currentDocumentId oneDocument \<and>
      currentDocumentId oneDocument + int (length (filter isCreateDocument ?cs)) \<le> 2 ^ 53"
    unfolding n c by simp
  from createDocument_ids[of ?cs oneDocument 7] h1 h2 u
  have "createdDocumentIds (fst (run ?cs newMemStorage)) =
        map (\<lambda>k. 1 + int k) [0..<length (filter isCreateDocument ?cs)]"
    and "createdDocumentIds (fst (run ?cs oneDocument)) =
        map (\<lambda>k. currentDocumentId oneDocument + int k)
          [0..<length (filter isCreateDocument ?cs)]"
    and "distinct (createdDocumentIds (fst (run ?cs oneDocument)))"
    and "deleteDocument oneDocument 7 = (False, oneDocument)"
    by blast+
  then show ?thesis
    unfolding n c m1 m2 by simp
qed

text \<open>
  Claim C8, as the code has it.  Neither the store nor the handler looks at the current
  status of a change.  What holds is: a change whose status is accepted or rejected still
  has one of these two statuses after any list of PATCH requests and after
  \<open>updateChangeStatus\<close> with a status of its declared type; and a PATCH request with any
  other status is answered with 400 and leaves the store as it is.
\<close>

theorem status_stays_resolved:
  "(resolved this c \<longrightarrow> resolved (snd (patchAll reqs this)) c) \<and>
   (resolved this c \<and> (s = ''accepted'' \<or> s = ''rejected'') \<longrightarrow>
      resolved (snd (updateChangeStatus this i s)) c) \<and>
   (status \<noteq> Some ''accepted'' \<and> status \<noteq> Some ''rejected'' \<longrightarrow>
      patchChangeStatus this idParam status = (Response 400 (Message ''Invalid status''), this))"
  using patchAll_resolved updateChangeStatus_resolved patchChangeStatus_invalid by blast

theorem status_stays_resolved_witness:
  "resolved acceptedChange 1 \<and>
   resolved
     (snd (patchAll [(Some 1, Some ''rejected''), (Some 1, Some ''pending''),
                     (None, Some ''accepted'')] acceptedChange)) 1 \<and>
   resolved (snd (updateChangeStatus acceptedChange 1 ''rejected'')) 1 \<and>
   patchChangeStatus acceptedChange (Some 1) (Some ''pending'') =
     (Response 400 (Message ''Invalid status''), acceptedChange)"
proof -
  have r: "resolved acceptedChange 1"
    by (simp add: resolved_def acceptedChange_def patchChangeStatus_def
        updateChangeStatus_def updateChange_def onePendingChange_def createChange_def
        newMemStorage_def Let_def spread_def)
  have p: "Some ''pending'' \<noteq> Some ''accepted'' \<and> Some ''pending'' \<noteq> Some ''rejected''"
    by simp
  from status_stays_resolved
    [of acceptedChange 1
        "[(Some 1, Some ''rejected''), (Some 1, Some ''pending''), (None, Some ''accepted'')]"
        "''rejected''" 1 "Some ''pending''" "Some 1"] r p
  show ?thesis by simp
qed

text \<open>
  Claim C8 as stated fails: a resolved change does move on.  The pending change with id 1
  is accepted by one PATCH request and rejected by the next, and \<open>updateChange\<close> sets it
  back to pending.
\<close>

theorem status_transition_counterexample:
  "map_option cr_status (changes onePendingChange 1) = Some (Some ''pending'') \<and>
   map_option cr_status (changes acceptedChange 1) = Some (Some ''accepted'') \<and>
   map_option cr_status
     (changes (snd (patchChangeStatus acceptedChange (Some 1) (Some ''rejected''))) 1) =
     Some (Some ''rejected'') \<and>
   map_option cr_status
     (changes (snd (updateChange acceptedChange 1
        \<lparr>cu_revisionId = None, cu_type = None, cu_lineNumber = None, cu_content = None,
         cu_originalContent = None, cu_status = Some ''pending''\<rparr>)) 1) =
     Some (Some ''pending'')"
  by (simp add: acceptedChange_def patchChangeStatus_def
        updateChangeStatus_def updateChange_def onePendingChange_def createChange_def
        newMemStorage_def Let_def spread_def)

end
